theory Spec2Isabelle
  imports Complex_Main
begin

section \<open>Run-time values and the rule contract\<close>

text \<open>
  The values a compiled validation procedure receives are JavaScript values. Only what
  the rules under verification inspect is kept of them: the result of \<^verbatim>\<open>typeof\<close>,
  whether \<^verbatim>\<open>Array.isArray\<close> holds and whether the value is \<^verbatim>\<open>null\<close>.
  A function is a callable object and may carry keyed properties of its own; every other
  non-array, non-null object (a literal, a class instance, a \<^verbatim>\<open>Date\<close>) is a
  \<open>JObject\<close>.
\<close>

datatype jsnumber = Finite real | NaN | PosInfinity | NegInfinity

datatype jsvalue =
    JUndefined
  | JNull
  | JBoolean bool
  | JNumber jsnumber
  | JString string
  | JSymbol string
  | JBigInt int
  | JFunction "(string \<times> jsvalue) list"
  | JArray "jsvalue list"
  | JObject "(string \<times> jsvalue) list"

fun typeof :: "jsvalue \<Rightarrow> string" where
  "typeof JUndefined = ''undefined''"
| "typeof JNull = ''object''"
| "typeof (JBoolean b) = ''boolean''"
| "typeof (JNumber n) = ''number''"
| "typeof (JString s) = ''string''"
| "typeof (JSymbol d) = ''symbol''"
| "typeof (JBigInt i) = ''bigint''"
| "typeof (JFunction props) = ''function''"
| "typeof (JArray xs) = ''object''"
| "typeof (JObject props) = ''object''"

fun isArray :: "jsvalue \<Rightarrow> bool" where
  "isArray (JArray xs) = True"
| "isArray v = False"

text \<open>
  A call either returns normally (\<open>Inr\<close>, with the reporter as the call left it) or
  unwinds with a thrown value (\<open>Inl\<close>).
\<close>

type_synonym 'a completion = "jsvalue + 'a"

text \<open>
  Modelled from the spec: the error reporter (its implementation is not among the
  sources). Its contract is \<^verbatim>\<open>report(pointer, ruleName, message, arrayExpressionPointer?)\<close>;
  it accumulates the reports of one call in order and a report never unwinds the call.
  The reporter is therefore the ordered log of the reports it received, each with the
  arguments of the call, and \<open>report\<close> completes normally. Replacing the message a
  rule passes by a custom one is the reporter's business and not modelled.
\<close>

record violation =
  v_pointer :: string
  v_rule :: string
  v_message :: string
  v_arrayExpressionPointer :: "string option"

type_synonym ErrorReporter = "violation list"

definition report ::
  "ErrorReporter \<Rightarrow> string \<Rightarrow> string \<Rightarrow> string \<Rightarrow> string option \<Rightarrow> ErrorReporter completion" where
  "report errorReporter ptr ruleName message arrayExpressionPtr =
     Inr (errorReporter @
       [\<lparr>v_pointer = ptr, v_rule = ruleName, v_message = message,
         v_arrayExpressionPointer = arrayExpressionPtr\<rparr>])"

text \<open>
  The validation context handed to a rule's \<^verbatim>\<open>validate\<close>: the error reporter, the
  pointer of the field under validation and, inside an array iteration, the alternate
  expression pointer.
\<close>

record ValidationContext =
  errorReporter :: ErrorReporter
  pointer :: string
  arrayExpressionPointer :: "string option"

text \<open>The metadata a rule's compile-time phase produces.\<close>

record rule =
  name :: string
  async :: bool
  allowUndefineds :: bool

subsection \<open>The object rule\<close>

text \<open>
  \<^verbatim>\<open>validate (value, _, { errorReporter, pointer, arrayExpressionPointer })\<close>: the
  second argument, the compiled options, is not used; the call returns the reporter as
  it leaves it.
\<close>

definition object_DEFAULT_MESSAGE :: string where
  "object_DEFAULT_MESSAGE = ''object validation failed''"

definition object_compile :: rule where
  "object_compile = \<lparr>name = ''object'', async = False, allowUndefineds = False\<rparr>"

definition object_validate ::
  "jsvalue \<Rightarrow> 'o \<Rightarrow> ValidationContext \<Rightarrow> ErrorReporter completion" where
  "object_validate value opts ctx =
     (if typeof value \<noteq> ''object'' \<or> isArray value \<or> value = JNull
      then report (errorReporter ctx) (pointer ctx) ''object'' object_DEFAULT_MESSAGE
             (arrayExpressionPointer ctx)
      else Inr (errorReporter ctx))"

subsection \<open>The string rule\<close>

definition string_DEFAULT_MESSAGE :: string where
  "string_DEFAULT_MESSAGE = ''string validation failed''"

definition string_compile :: rule where
  "string_compile = \<lparr>name = ''string'', async = False, allowUndefineds = False\<rparr>"

definition string_validate ::
  "jsvalue \<Rightarrow> 'o \<Rightarrow> ValidationContext \<Rightarrow> ErrorReporter completion" where
  "string_validate value opts ctx =
     (if typeof value \<noteq> ''string''
      then report (errorReporter ctx) (pointer ctx) ''string'' string_DEFAULT_MESSAGE
             (arrayExpressionPointer ctx)
      else Inr (errorReporter ctx))"

section \<open>The schema tree\<close>

text \<open>
  A schema node is a literal (with its subtype), an object (with its children, an ordered
  mapping from names to nodes) or an array (with an optional element schema
  \<^verbatim>\<open>each\<close>); every node carries its rules in declared order. The children of an
  object are kept as the list of its entries in key order. A value of this type is a
  finite tree: the schema is acyclic.
\<close>

datatype schema =
    SchemaLiteral string "rule list"
  | SchemaObject "rule list" "(string \<times> schema) list"
  | SchemaArray "rule list" "schema option"

fun rules_of :: "schema \<Rightarrow> rule list" where
  "rules_of (SchemaLiteral subtype rs) = rs"
| "rules_of (SchemaObject rs children) = rs"
| "rules_of (SchemaArray rs each) = rs"

subsection \<open>ArrayCompiler.hasAsyncChildren\<close>

text \<open>
  \<^verbatim>\<open>node.rules.find((rule) => rule.async)\<close> is \<open>find async rs\<close>; the loop over
  \<^verbatim>\<open>Object.keys(node.children)\<close> with its early \<^verbatim>\<open>return true\<close> is
  \<open>hasAsyncChildren_children\<close>. An array node without \<^verbatim>\<open>each\<close> falls through
  both tests to \<^verbatim>\<open>return false\<close>.
\<close>

fun hasAsyncChildren :: "schema \<Rightarrow> bool"
  and hasAsyncChildren_children :: "(string \<times> schema) list \<Rightarrow> bool" where
  "hasAsyncChildren (SchemaLiteral subtype rs) =
     (if find async rs \<noteq> None then True else False)"
| "hasAsyncChildren (SchemaArray rs each) =
     (if find async rs \<noteq> None then True
      else (case each of Some node \<Rightarrow> hasAsyncChildren node | None \<Rightarrow> False))"
| "hasAsyncChildren (SchemaObject rs children) =
     (if find async rs \<noteq> None then True
      else if hasAsyncChildren_children children then True else False)"
| "hasAsyncChildren_children [] = False"
| "hasAsyncChildren_children ((child, node) # rest) =
     (if hasAsyncChildren node then True else hasAsyncChildren_children rest)"

text \<open>
  The same method with its call stack bounded: \<open>hasAsyncChildren_bounded depth node\<close>
  is \<open>None\<close> when the recursion would need more than \<open>depth\<close> nested calls, and
  \<open>Some\<close> of the returned boolean otherwise. It is defined by recursion on the bound
  alone, with no appeal to the shape of the schema.
\<close>

fun children_loop ::
  "(schema \<Rightarrow> bool option) \<Rightarrow> (string \<times> schema) list \<Rightarrow> bool option" where
  "children_loop call [] = Some False"
| "children_loop call ((child, node) # rest) =
     (case call node of
        None \<Rightarrow> None
      | Some True \<Rightarrow> Some True
      | Some False \<Rightarrow> children_loop call rest)"

primrec hasAsyncChildren_bounded :: "nat \<Rightarrow> schema \<Rightarrow> bool option" where
  "hasAsyncChildren_bounded 0 node = None"
| "hasAsyncChildren_bounded (Suc depth) node =
     (case node of
        SchemaLiteral subtype rs \<Rightarrow> Some (find async rs \<noteq> None)
      | SchemaArray rs each \<Rightarrow>
          (if find async rs \<noteq> None then Some True
           else (case each of
                   Some n \<Rightarrow> hasAsyncChildren_bounded depth n
                 | None \<Rightarrow> Some False))
      | SchemaObject rs children \<Rightarrow>
          (if find async rs \<noteq> None then Some True
           else children_loop (hasAsyncChildren_bounded depth) children))"

text \<open>The number of nodes on the longest path from a node down to a leaf.\<close>

fun nesting_depth :: "schema \<Rightarrow> nat"
  and nesting_depth_children :: "(string \<times> schema) list \<Rightarrow> nat" where
  "nesting_depth (SchemaLiteral subtype rs) = 1"
| "nesting_depth (SchemaArray rs each) =
     (case each of Some node \<Rightarrow> Suc (nesting_depth node) | None \<Rightarrow> 1)"
| "nesting_depth (SchemaObject rs children) = Suc (nesting_depth_children children)"
| "nesting_depth_children [] = 0"
| "nesting_depth_children ((child, node) # rest) =
     max (nesting_depth node) (nesting_depth_children rest)"

text \<open>
  Every rule anywhere at or below a node, as the specification words it: the node's own
  rules, those below a nested array's element schema and those below an object's
  children.
\<close>

fun all_rules :: "schema \<Rightarrow> rule list"
  and all_rules_children :: "(string \<times> schema) list \<Rightarrow> rule list" where
  "all_rules (SchemaLiteral subtype rs) = rs"
| "all_rules (SchemaArray rs each) =
     rs @ (case each of Some node \<Rightarrow> all_rules node | None \<Rightarrow> [])"
| "all_rules (SchemaObject rs children) = rs @ all_rules_children children"
| "all_rules_children [] = []"
| "all_rules_children ((child, node) # rest) = all_rules node @ all_rules_children rest"

section \<open>The compile pass\<close>

subsection \<open>The buffer\<close>

text \<open>
  Modelled from the spec: CompilerBuffer (\<^verbatim>\<open>Compiler/Buffer\<close> is imported by
  \<^verbatim>\<open>Array.ts\<close> and is not among the sources). The buffer accumulates the generated
  statements in order, tracks the indentation and allocates unique variable names;
  \<^verbatim>\<open>writeStatement\<close> and \<^verbatim>\<open>writeExpression\<close> append at the current indent,
  \<^verbatim>\<open>indent\<close> and \<^verbatim>\<open>dedent\<close> adjust the nesting, a dedent below zero is fatal
  at compile time, and \<^verbatim>\<open>newLine\<close> is cosmetic. A line keeps the nesting level it
  was written at.
\<close>

datatype line = Statement nat string | Expression nat string | NewLine

record CompilerBuffer =
  lines :: "line list"
  indentation :: nat
  allocated :: nat

datatype compile_error = DedentBelowZero | SchemaError string

definition writeStatement :: "string \<Rightarrow> CompilerBuffer \<Rightarrow> CompilerBuffer" where
  "writeStatement text buffer =
     buffer\<lparr>lines := lines buffer @ [Statement (indentation buffer) text]\<rparr>"

definition writeExpression :: "string \<Rightarrow> CompilerBuffer \<Rightarrow> CompilerBuffer" where
  "writeExpression text buffer =
     buffer\<lparr>lines := lines buffer @ [Expression (indentation buffer) text]\<rparr>"

definition newLine :: "CompilerBuffer \<Rightarrow> CompilerBuffer" where
  "newLine buffer = buffer\<lparr>lines := lines buffer @ [NewLine]\<rparr>"

definition indent :: "CompilerBuffer \<Rightarrow> CompilerBuffer" where
  "indent buffer = buffer\<lparr>indentation := indentation buffer + 1\<rparr>"

definition dedent :: "CompilerBuffer \<Rightarrow> compile_error + CompilerBuffer" where
  "dedent buffer =
     (if indentation buffer = 0 then Inl DedentBelowZero
      else Inr (buffer\<lparr>indentation := indentation buffer - 1\<rparr>))"

subsection \<open>Numbers in template literals\<close>

text \<open>
  \<^verbatim>\<open>`index_${n}`\<close> renders the counter \<open>n\<close>, a non-negative integer, in decimal
  without leading zeros.
\<close>

definition digit_char :: "nat \<Rightarrow> char" where
  "digit_char d = ''0123456789'' ! d"

fun string_of_nat :: "nat \<Rightarrow> string" where
  "string_of_nat n =
     (if n < 10 then [digit_char n]
      else string_of_nat (n div 10) @ [digit_char (n mod 10)])"

declare string_of_nat.simps [simp del]

subsection \<open>Compiler state and collaborators\<close>

text \<open>
  The compile pass owns two counters and the buffer. A \<open>Compiler\<close> record may be
  extended with further fields; the array compiler reads and writes only these two.
\<close>

record Compiler =
  arrayIndexVariableCounter :: nat
  outVariableCounter :: nat

type_synonym 'a cstate = "'a Compiler_scheme \<times> CompilerBuffer"

datatype field_kind = LiteralField | IdentifierField

record ValidationField =
  field_name :: string
  field_type :: field_kind

record references =
  outVariable :: string
  referenceVariable :: string
  parentPointer :: "ValidationField list"

text \<open>
  The literal node compiler as the array compiler configures it: the field, the literal
  node, the references and the two public flags.
\<close>

record LiteralCompiler =
  lc_field :: ValidationField
  lc_node :: schema
  lc_references :: references
  disableOutVariable :: bool
  forceValueDeclaration :: bool

text \<open>
  What \<^verbatim>\<open>Array.ts\<close> calls and the sources do not contain is taken as a parameter:
  \<^verbatim>\<open>LiteralCompiler.compile\<close> (returning, with the new state, the
  \<^verbatim>\<open>variableName\<close> the array compiler reads from the literal afterwards),
  \<^verbatim>\<open>Compiler.compileNode\<close>, \<^verbatim>\<open>Compiler.pointerToExpression\<close> and
  \<^verbatim>\<open>Compiler.getVariableExistsName\<close>. The first two work on the shared compiler
  state and buffer and may fail.
\<close>

record 'a Collaborators =
  literalCompile :: "LiteralCompiler \<Rightarrow> 'a cstate \<Rightarrow> compile_error + (string \<times> 'a cstate)"
  compileNode ::
    "ValidationField \<Rightarrow> schema \<Rightarrow> ValidationField list \<Rightarrow> string \<Rightarrow> string \<Rightarrow>
       'a cstate \<Rightarrow> compile_error + 'a cstate"
  pointerToExpression :: "ValidationField \<Rightarrow> string"
  getVariableExistsName :: "string \<Rightarrow> string"

subsection \<open>ArrayCompiler\<close>

definition outVariableDeclaration :: "string \<Rightarrow> string \<Rightarrow> string \<Rightarrow> string" where
  "outVariableDeclaration outVar parentOut referenceExpression =
     ''const '' @ outVar @ '' = '' @ parentOut @ ''['' @ referenceExpression @ ''] = []''"

definition declareOutVariable ::
  "'a Collaborators \<Rightarrow> ValidationField \<Rightarrow> references \<Rightarrow> string \<Rightarrow>
     CompilerBuffer \<Rightarrow> CompilerBuffer" where
  "declareOutVariable env field refs outVar buffer =
     (let referenceExpression = pointerToExpression env field
      in writeExpression
           (outVariableDeclaration outVar (outVariable refs) referenceExpression) buffer)"

definition ifGuardStatement :: "string \<Rightarrow> string \<Rightarrow> string" where
  "ifGuardStatement existsName variableName =
     ''if ('' @ existsName @ '' && Array.isArray('' @ variableName @ '')) {''"

definition startIfGuard ::
  "'a Collaborators \<Rightarrow> string \<Rightarrow> CompilerBuffer \<Rightarrow> CompilerBuffer" where
  "startIfGuard env variableName buffer =
     indent (writeStatement
       (ifGuardStatement (getVariableExistsName env variableName) variableName) buffer)"

definition endIfGuard :: "CompilerBuffer \<Rightarrow> compile_error + CompilerBuffer" where
  "endIfGuard buffer =
     (case dedent buffer of
        Inl err \<Rightarrow> Inl err
      | Inr buffer' \<Rightarrow> Inr (writeStatement ''}'' buffer'))"

definition asyncForLoopStatement :: "string \<Rightarrow> string \<Rightarrow> string" where
  "asyncForLoopStatement variableName indexVariable =
     ''for (let ['' @ indexVariable @ ''] of '' @ variableName @ ''.entries()) {''"

definition startAsyncForLoop :: "string \<Rightarrow> string \<Rightarrow> CompilerBuffer \<Rightarrow> CompilerBuffer" where
  "startAsyncForLoop variableName indexVariable buffer =
     indent (writeStatement (asyncForLoopStatement variableName indexVariable) buffer)"

definition forLoopStatement :: "string \<Rightarrow> string \<Rightarrow> string" where
  "forLoopStatement variableName indexVariable =
     ''for (let '' @ indexVariable @ '' = 0; '' @ indexVariable @ '' < '' @ variableName
       @ ''.length; '' @ indexVariable @ ''++) {''"

definition startForLoop :: "string \<Rightarrow> string \<Rightarrow> CompilerBuffer \<Rightarrow> CompilerBuffer" where
  "startForLoop variableName indexVariable buffer =
     indent (writeStatement (forLoopStatement variableName indexVariable) buffer)"

definition endForLoop :: "CompilerBuffer \<Rightarrow> compile_error + CompilerBuffer" where
  "endForLoop buffer =
     (case dedent buffer of
        Inl err \<Rightarrow> Inl err
      | Inr buffer' \<Rightarrow> Inr (writeStatement ''}'' buffer'))"

text \<open>
  The literal compiler \<^verbatim>\<open>compile\<close> builds for the array's own rules (lines 132 to
  148 of \<^verbatim>\<open>Array.ts\<close>): a literal node of subtype \<^verbatim>\<open>array\<close> with the array's
  rules, the output disabled exactly when the node has an element schema, and the value
  declaration forced.
\<close>

definition arrayLiteral ::
  "ValidationField \<Rightarrow> rule list \<Rightarrow> schema option \<Rightarrow> references \<Rightarrow> LiteralCompiler" where
  "arrayLiteral field rs each refs =
     \<lparr>lc_field = field, lc_node = SchemaLiteral ''array'' rs, lc_references = refs,
      disableOutVariable = (each \<noteq> None), forceValueDeclaration = True\<rparr>"

text \<open>
  \<^verbatim>\<open>ArrayCompiler.compile\<close>. The compiler is constructed with a node of type
  \<^verbatim>\<open>SchemaArray\<close>, so \<^verbatim>\<open>compile\<close> is specified on array nodes only. The buffer
  and the compiler are shared, mutable objects: the state goes through the literal step,
  the array compiler's own writes and the element compilation in that order, and an
  error of any step ends the call.
\<close>

fun compile ::
  "'a Collaborators \<Rightarrow> ValidationField \<Rightarrow> schema \<Rightarrow> references \<Rightarrow> 'a cstate \<Rightarrow>
     compile_error + 'a cstate" where
  "compile env field (SchemaArray rs each) refs (compiler, buff) =
     (if rs = [] \<and> each = None then Inr (compiler, buff)
      else
        (case literalCompile env (arrayLiteral field rs each refs) (compiler, buff) of
           Inl err \<Rightarrow> Inl err
         | Inr (variableName, compiler1, buff1) \<Rightarrow>
             (case each of
                None \<Rightarrow> Inr (compiler1, buff1)
              | Some eachNode \<Rightarrow>
                  (let hasAsync = hasAsyncChildren eachNode;
                       buff2 = newLine buff1;
                       buff3 = startIfGuard env variableName buff2;
                       indexVariable =
                         ''index_'' @ string_of_nat (arrayIndexVariableCounter compiler1);
                       compiler2 = compiler1\<lparr>arrayIndexVariableCounter :=
                                     arrayIndexVariableCounter compiler1 + 1\<rparr>;
                       outVar = ''out_'' @ string_of_nat (outVariableCounter compiler2);
                       compiler3 = compiler2\<lparr>outVariableCounter :=
                                     outVariableCounter compiler2 + 1\<rparr>;
                       buff4 = declareOutVariable env field refs outVar buff3;
                       buff5 = (if hasAsync
                                then startAsyncForLoop variableName indexVariable buff4
                                else startForLoop variableName indexVariable buff4);
                       buff6 = newLine buff5
                   in (case compileNode env
                              \<lparr>field_name = indexVariable, field_type = IdentifierField\<rparr>
                              eachNode (parentPointer refs @ [field]) variableName outVar
                              (compiler3, buff6) of
                         Inl err \<Rightarrow> Inl err
                       | Inr (compiler4, buff7) \<Rightarrow>
                           (case endForLoop buff7 of
                              Inl err \<Rightarrow> Inl err
                            | Inr buff8 \<Rightarrow>
                                (case endIfGuard buff8 of
                                   Inl err \<Rightarrow> Inl err
                                 | Inr buff9 \<Rightarrow> Inr (compiler4, buff9))))))))"

subsection \<open>The collaborators as the specification describes them\<close>

text \<open>
  Modelled from the spec: \<^verbatim>\<open>Compiler.pointerToExpression\<close> and
  \<^verbatim>\<open>Compiler.getVariableExistsName\<close> (the \<^verbatim>\<open>Compiler\<close> class is imported by
  \<^verbatim>\<open>Array.ts\<close> and is not among the sources). The pointer resolver builds the run-time
  expression locating a field: the quoted name of a static field, the index variable of
  a dynamic one. The second names the variable that holds whether a value exists.
\<close>

definition pointerToExpression_spec :: "ValidationField \<Rightarrow> string" where
  "pointerToExpression_spec field =
     (case field_type field of
        LiteralField \<Rightarrow> [CHR 0x27] @ field_name field @ [CHR 0x27]
      | IdentifierField \<Rightarrow> field_name field)"

definition getVariableExistsName_spec :: "string \<Rightarrow> string" where
  "getVariableExistsName_spec variableName = variableName @ ''_exists''"

text \<open>
  Modelled from the spec: the buffer's allocation of unique variable names (section 2 of
  the specification; the \<^verbatim>\<open>CompilerBuffer\<close> class is not among the sources).
\<close>

definition allocateVariable :: "string \<Rightarrow> CompilerBuffer \<Rightarrow> string \<times> CompilerBuffer" where
  "allocateVariable prefix buffer =
     (prefix @ ''_'' @ string_of_nat (allocated buffer),
      buffer\<lparr>allocated := allocated buffer + 1\<rparr>)"

text \<open>
  Modelled from the spec: \<^verbatim>\<open>LiteralCompiler.compile\<close> (\<^verbatim>\<open>Compiler/Nodes/Literal\<close>
  is imported by \<^verbatim>\<open>Array.ts\<close> and is not among the sources). Section 4.2: the literal
  compiler declares a local binding for the value at the field's location (always, when
  the declaration is forced); if any rule tolerates an absent value, the checks that
  require presence are wrapped in an existence guard; the rules run in declared order;
  the value is then assigned into the destination output at its computed location,
  unless the output has been disabled for the node; a node with no rules compiles to
  nothing. The wording of the emitted lines follows the conventions of
  \<^verbatim>\<open>Array.ts\<close>; only their order and presence matter below.
\<close>

definition valueDeclaration :: "string \<Rightarrow> string \<Rightarrow> string \<Rightarrow> string" where
  "valueDeclaration variableName reference referenceExpression =
     ''const '' @ variableName @ '' = '' @ reference @ ''['' @ referenceExpression @ '']''"

definition existsDeclaration :: "string \<Rightarrow> string \<Rightarrow> string" where
  "existsDeclaration existsName variableName =
     ''const '' @ existsName @ '' = helpers.exists('' @ variableName @ '')''"

definition ruleInvocation :: "rule \<Rightarrow> string \<Rightarrow> string" where
  "ruleInvocation r variableName =
     (if async r then ''await '' else '''') @
     ''validations.'' @ name r @ ''.validate('' @ variableName @ '')''"

definition outAssignment :: "string \<Rightarrow> string \<Rightarrow> string \<Rightarrow> string" where
  "outAssignment parentOut referenceExpression variableName =
     parentOut @ ''['' @ referenceExpression @ ''] = '' @ variableName"

fun compileRules ::
  "bool \<Rightarrow> string \<Rightarrow> string \<Rightarrow> rule list \<Rightarrow> CompilerBuffer \<Rightarrow>
     compile_error + CompilerBuffer" where
  "compileRules guarded existsName variableName [] buffer = Inr buffer"
| "compileRules guarded existsName variableName (r # rs) buffer =
     (if guarded \<and> \<not> allowUndefineds r
      then
        (case dedent (writeExpression (ruleInvocation r variableName)
                (indent (writeStatement (''if ('' @ existsName @ '') {'') buffer))) of
           Inl err \<Rightarrow> Inl err
         | Inr buffer' \<Rightarrow>
             compileRules guarded existsName variableName rs (writeStatement ''}'' buffer'))
      else compileRules guarded existsName variableName rs
             (writeExpression (ruleInvocation r variableName) buffer))"

definition LiteralCompiler_compile ::
  "(ValidationField \<Rightarrow> string) \<Rightarrow> (string \<Rightarrow> string) \<Rightarrow> LiteralCompiler \<Rightarrow>
     'a cstate \<Rightarrow> compile_error + (string \<times> 'a cstate)" where
  "LiteralCompiler_compile pointerToExpr existsNameOf literal st =
     (case st of (compiler, buff) \<Rightarrow>
        (let rs = rules_of (lc_node literal);
             refs = lc_references literal;
             referenceExpression = pointerToExpr (lc_field literal);
             (variableName, buff1) = allocateVariable ''val'' buff;
             existsName = existsNameOf variableName
         in if rs = [] \<and> \<not> forceValueDeclaration literal
            then Inr (variableName, compiler, buff)
            else
              (let buff2 = writeExpression
                     (valueDeclaration variableName (referenceVariable refs)
                        referenceExpression) buff1;
                   buff3 = writeExpression (existsDeclaration existsName variableName) buff2
               in (case compileRules (list_ex allowUndefineds rs) existsName variableName
                          rs buff3 of
                     Inl err \<Rightarrow> Inl err
                   | Inr buff4 \<Rightarrow>
                       Inr (variableName, compiler,
                            if disableOutVariable literal then buff4
                            else writeExpression
                                   (outAssignment (outVariable refs) referenceExpression
                                      variableName) buff4)))))"

text \<open>
  Modelled from the spec: \<^verbatim>\<open>Compiler.compileNode\<close>, the dispatch of a node to the
  compiler of its kind, for the one kind whose compiler is described above. The object
  compiler is not among the sources and the dispatch refuses the other kinds here.
\<close>

fun compileNode_spec ::
  "ValidationField \<Rightarrow> schema \<Rightarrow> ValidationField list \<Rightarrow> string \<Rightarrow> string \<Rightarrow>
     'a cstate \<Rightarrow> compile_error + 'a cstate" where
  "compileNode_spec field (SchemaLiteral subtype rs) parentPtr reference out st =
     (case LiteralCompiler_compile pointerToExpression_spec getVariableExistsName_spec
             \<lparr>lc_field = field, lc_node = SchemaLiteral subtype rs,
              lc_references = \<lparr>outVariable = out, referenceVariable = reference,
                               parentPointer = parentPtr\<rparr>,
              disableOutVariable = False, forceValueDeclaration = False\<rparr> st of
        Inl err \<Rightarrow> Inl err
      | Inr (variableName, st') \<Rightarrow> Inr st')"
| "compileNode_spec field node parentPtr reference out st =
     Inl (SchemaError ''unsupported node'')"

text \<open>
  Modelled from the spec: the four collaborators above, put together for a compiler
  whose state is the two counters alone.
\<close>

definition specCollaborators :: "unit Collaborators" where
  "specCollaborators =
     \<lparr>literalCompile =
        LiteralCompiler_compile pointerToExpression_spec getVariableExistsName_spec,
      compileNode = compileNode_spec,
      pointerToExpression = pointerToExpression_spec,
      getVariableExistsName = getVariableExistsName_spec\<rparr>"

section \<open>Reading the emitted code\<close>

text \<open>
  The emitted lines are JavaScript. A statement whose text ends with an opening brace
  opens a block and a statement whose text starts with a closing brace closes the
  innermost open block; expressions and blank lines do neither. The code inside a block
  runs only if the code around the block runs and the condition of the block's header
  holds. \<open>reached holds stack ls\<close> tells for each line of \<open>ls\<close> whether it can run,
  given for every block header whether its condition holds (\<open>holds\<close>) and, for the
  blocks open before \<open>ls\<close>, whether their bodies run (\<open>stack\<close>, innermost first);
  \<open>blocks_after\<close> is the stack after \<open>ls\<close>.
\<close>

fun opens_block :: "line \<Rightarrow> bool" where
  "opens_block (Statement i text) = (text \<noteq> [] \<and> last text = CHR ''{'')"
| "opens_block l = False"

fun closes_block :: "line \<Rightarrow> bool" where
  "closes_block (Statement i text) = (text \<noteq> [] \<and> hd text = CHR ''}'')"
| "closes_block l = False"

fun line_text :: "line \<Rightarrow> string" where
  "line_text (Statement i text) = text"
| "line_text (Expression i text) = text"
| "line_text NewLine = []"

fun enclosing_runs :: "bool list \<Rightarrow> bool" where
  "enclosing_runs [] = True"
| "enclosing_runs (b # bs) = b"

fun blocks_after :: "(string \<Rightarrow> bool) \<Rightarrow> bool list \<Rightarrow> line list \<Rightarrow> bool list" where
  "blocks_after holds stack [] = stack"
| "blocks_after holds stack (l # rest) =
     (let stack1 = (if closes_block l then tl stack else stack);
          here = enclosing_runs stack1;
          stack2 = (if opens_block l then (here \<and> holds (line_text l)) # stack1 else stack1)
      in blocks_after holds stack2 rest)"

fun reached :: "(string \<Rightarrow> bool) \<Rightarrow> bool list \<Rightarrow> line list \<Rightarrow> bool list" where
  "reached holds stack [] = []"
| "reached holds stack (l # rest) =
     (let stack1 = (if closes_block l then tl stack else stack);
          here = enclosing_runs stack1;
          stack2 = (if opens_block l then (here \<and> holds (line_text l)) # stack1 else stack1)
      in here # reached holds stack2 rest)"

text \<open>
  A run of lines is well bracketed when it closes no block it did not open and leaves
  none of its own open: \<open>bracket_depth d ls\<close> is the number of blocks open after
  \<open>ls\<close>, starting from \<open>d\<close>, and \<open>None\<close> if \<open>ls\<close> closes more than that.
\<close>

fun bracket_depth :: "nat \<Rightarrow> line list \<Rightarrow> nat option" where
  "bracket_depth d [] = Some d"
| "bracket_depth d (l # rest) =
     (if closes_block l \<and> d = 0 then None
      else bracket_depth
             ((if closes_block l then d - 1 else d) + (if opens_block l then 1 else 0)) rest)"

definition well_bracketed :: "line list \<Rightarrow> bool" where
  "well_bracketed ls = (bracket_depth 0 ls = Some 0)"

text \<open>
  Modelled from the spec: the run-time existence check behind the variable that
  \<^verbatim>\<open>getVariableExistsName\<close> names (the helper is not among the sources): a value
  exists unless it is absent. The guard the array compiler emits,
  \<^verbatim>\<open>exists && Array.isArray(value)\<close>, then evaluates to \<open>arrayGuard value\<close>.
\<close>

definition valueExists :: "jsvalue \<Rightarrow> bool" where
  "valueExists value = (value \<noteq> JUndefined \<and> value \<noteq> JNull)"

definition arrayGuard :: "jsvalue \<Rightarrow> bool" where
  "arrayGuard value = (valueExists value \<and> isArray value)"

section \<open>A worked example\<close>

text \<open>
  The inner array of a field \<^verbatim>\<open>tags\<close> that is an array of arrays of strings: its
  field is the index variable of the outer loop, its value is read from the outer
  value variable and its output goes into the outer accumulator. The outer array has
  already taken one index variable, two output accumulators and one value variable, and
  the buffer stands two levels deep.
\<close>

definition example_field :: ValidationField where
  "example_field = \<lparr>field_name = ''index_0'', field_type = IdentifierField\<rparr>"

definition example_refs :: references where
  "example_refs =
     \<lparr>outVariable = ''out_1'', referenceVariable = ''val_0'',
      parentPointer = [\<lparr>field_name = ''tags'', field_type = LiteralField\<rparr>]\<rparr>"

definition example_compiler :: Compiler where
  "example_compiler = \<lparr>arrayIndexVariableCounter = 1, outVariableCounter = 2\<rparr>"

definition example_buffer :: CompilerBuffer where
  "example_buffer = \<lparr>lines = [], indentation = 2, allocated = 1\<rparr>"

definition example_state :: "unit cstate" where
  "example_state = (example_compiler, example_buffer)"

definition array_rule :: rule where
  "array_rule = \<lparr>name = ''array'', async = False, allowUndefineds = False\<rparr>"

definition unique_rule :: rule where
  "unique_rule = \<lparr>name = ''unique'', async = True, allowUndefineds = False\<rparr>"

section \<open>Auxiliary facts\<close>

subsection \<open>Asynchronous rules below a node\<close>

lemma hasAsync_all_rules:
  "hasAsyncChildren node = (\<exists>r\<in>set (all_rules node). async r)"
  "hasAsyncChildren_children children = (\<exists>r\<in>set (all_rules_children children). async r)"
  by (induction node and children rule: hasAsyncChildren_hasAsyncChildren_children.induct)
     (auto simp: find_None_iff split: option.splits)

lemma children_loop_bounded:
  assumes "\<And>child node. (child, node) \<in> set children \<Longrightarrow> call node = Some (hasAsyncChildren node)"
  shows "children_loop call children = Some (hasAsyncChildren_children children)"
  using assms
proof (induction children)
  case Nil
  show ?case by simp
next
  case (Cons entry rest)
  obtain child node where entry: "entry = (child, node)" by (cases entry)
  have here: "call node = Some (hasAsyncChildren node)"
    using Cons.prems [of child node] entry by simp
  have later: "children_loop call rest = Some (hasAsyncChildren_children rest)"
  proof (rule Cons.IH)
    fix c n assume "(c, n) \<in> set rest"
    then show "call n = Some (hasAsyncChildren n)" using Cons.prems [of c n] by simp
  qed
  show ?case using entry here later by simp
qed

lemma bounded_aux:
  "\<forall>d. nesting_depth node \<le> d \<longrightarrow> hasAsyncChildren_bounded d node = Some (hasAsyncChildren node)"
  "\<forall>d. nesting_depth_children children \<le> d \<longrightarrow>
      (\<forall>(child, node)\<in>set children. hasAsyncChildren_bounded d node = Some (hasAsyncChildren node))"
proof (induction node and children rule: nesting_depth_nesting_depth_children.induct)
  case (1 subtype rs)
  show ?case
  proof (intro allI impI)
    fix d assume "nesting_depth (SchemaLiteral subtype rs) \<le> d"
    then obtain d' where "d = Suc d'" by (cases d) auto
    then show "hasAsyncChildren_bounded d (SchemaLiteral subtype rs)
                 = Some (hasAsyncChildren (SchemaLiteral subtype rs))" by simp
  qed
next
  case (2 rs each)
  show ?case
  proof (intro allI impI)
    fix d assume le: "nesting_depth (SchemaArray rs each) \<le> d"
    then obtain d' where d: "d = Suc d'" by (cases d) (auto split: option.splits)
    show "hasAsyncChildren_bounded d (SchemaArray rs each)
                 = Some (hasAsyncChildren (SchemaArray rs each))"
      using 2 le d by (auto split: option.splits)
  qed
next
  case (3 rs children)
  show ?case
  proof (intro allI impI)
    fix d assume le: "nesting_depth (SchemaObject rs children) \<le> d"
    then obtain d' where d: "d = Suc d'" by (cases d) auto
    with le have "nesting_depth_children children \<le> d'" by simp
    with 3 have "\<forall>(child, node)\<in>set children.
        hasAsyncChildren_bounded d' node = Some (hasAsyncChildren node)" by blast
    then have "children_loop (hasAsyncChildren_bounded d') children
        = Some (hasAsyncChildren_children children)"
      by (intro children_loop_bounded) auto
    then show "hasAsyncChildren_bounded d (SchemaObject rs children)
                 = Some (hasAsyncChildren (SchemaObject rs children))"
      using d by simp
  qed
next
  case 4
  show ?case by simp
next
  case (5 child node rest)
  then show ?case by auto
qed

subsection \<open>Decimal rendering is injective\<close>

lemma digit_char_inj:
  assumes "a < 10" and "b < 10" and "digit_char a = digit_char b"
  shows "a = b"
proof -
  have A: "a \<in> {0, 1, 2, 3, 4, 5, 6, 7, 8, 9}" using assms(1) by auto
  have B: "b \<in> {0, 1, 2, 3, 4, 5, 6, 7, 8, 9}" using assms(2) by auto
  show ?thesis using A B assms(3) by (auto simp: digit_char_def)
qed

lemma string_of_nat_nonempty: "string_of_nat n \<noteq> []"
  by (subst string_of_nat.simps) simp

lemma string_of_nat_inj: "string_of_nat n = string_of_nat m \<Longrightarrow> n = m"
proof (induction n arbitrary: m rule: string_of_nat.induct)
  case (1 n)
  have n_eq: "string_of_nat n =
      (if n < 10 then [digit_char n] else string_of_nat (n div 10) @ [digit_char (n mod 10)])"
    by (subst string_of_nat.simps) simp
  have m_eq: "string_of_nat m =
      (if m < 10 then [digit_char m] else string_of_nat (m div 10) @ [digit_char (m mod 10)])"
    by (subst string_of_nat.simps) simp
  show ?case
  proof (cases "n < 10")
    case small_n: True
    show ?thesis
    proof (cases "m < 10")
      case True
      with small_n "1.prems" n_eq m_eq show ?thesis by (simp add: digit_char_inj)
    next
      case False
      with small_n "1.prems" n_eq m_eq
      have "[digit_char n] = string_of_nat (m div 10) @ [digit_char (m mod 10)]" by simp
      then have "string_of_nat (m div 10) = []" by (simp add: Cons_eq_append_conv)
      then show ?thesis by (simp add: string_of_nat_nonempty)
    qed
  next
    case big_n: False
    show ?thesis
    proof (cases "m < 10")
      case True
      with big_n "1.prems" n_eq m_eq
      have "string_of_nat (n div 10) @ [digit_char (n mod 10)] = [digit_char m]" by simp
      then have "string_of_nat (n div 10) = []" by (simp add: append_eq_Cons_conv)
      then show ?thesis by (simp add: string_of_nat_nonempty)
    next
      case False
      with big_n "1.prems" n_eq m_eq
      have eq: "string_of_nat (n div 10) = string_of_nat (m div 10)"
        and dg: "digit_char (n mod 10) = digit_char (m mod 10)" by simp_all
      from "1.IH" [OF big_n eq] have high: "n div 10 = m div 10" .
      have low: "n mod 10 = m mod 10" using dg by (intro digit_char_inj) simp_all
      have "n = 10 * (n div 10) + n mod 10" by simp
      also have "\<dots> = 10 * (m div 10) + m mod 10" using high low by simp
      also have "\<dots> = m" by simp
      finally show ?thesis .
    qed
  qed
qed

lemma string_of_nat_eq_iff: "(string_of_nat n = string_of_nat m) = (n = m)"
  using string_of_nat_inj by blast

subsection \<open>What compile does for a node with an element schema\<close>

lemmas buffer_defs = writeStatement_def writeExpression_def newLine_def indent_def dedent_def
  startIfGuard_def endIfGuard_def startAsyncForLoop_def startForLoop_def endForLoop_def
  declareOutVariable_def

lemma endForLoop_Inr:
  "endForLoop buffer = Inr buffer' \<longleftrightarrow>
     0 < indentation buffer \<and>
     buffer' = buffer\<lparr>lines := lines buffer @ [Statement (indentation buffer - 1) ''}''],
                      indentation := indentation buffer - 1\<rparr>"
  by (auto simp: endForLoop_def dedent_def writeStatement_def)

lemma endIfGuard_Inr:
  "endIfGuard buffer = Inr buffer' \<longleftrightarrow>
     0 < indentation buffer \<and>
     buffer' = buffer\<lparr>lines := lines buffer @ [Statement (indentation buffer - 1) ''}''],
                      indentation := indentation buffer - 1\<rparr>"
  by (auto simp: endIfGuard_def dedent_def writeStatement_def)

lemma endForLoop_Inl: "endForLoop buffer = Inl err \<longleftrightarrow> indentation buffer = 0 \<and> err = DedentBelowZero"
  by (auto simp: endForLoop_def dedent_def)

lemma endIfGuard_Inl: "endIfGuard buffer = Inl err \<longleftrightarrow> indentation buffer = 0 \<and> err = DedentBelowZero"
  by (auto simp: endIfGuard_def dedent_def)

lemma compile_Some_Inr:
  "compile env field (SchemaArray rs (Some e)) refs (c, b) = Inr (c', b') \<longleftrightarrow>
   (\<exists>v c1 b1 b7.
      literalCompile env (arrayLiteral field rs (Some e) refs) (c, b) = Inr (v, c1, b1)
    \<and> compileNode env
        \<lparr>field_name = ''index_'' @ string_of_nat (arrayIndexVariableCounter c1),
          field_type = IdentifierField\<rparr>
        e (parentPointer refs @ [field]) v (''out_'' @ string_of_nat (outVariableCounter c1))
        (c1\<lparr>arrayIndexVariableCounter := arrayIndexVariableCounter c1 + 1,
            outVariableCounter := outVariableCounter c1 + 1\<rparr>,
         \<lparr>lines = lines b1 @
          [NewLine,
           Statement (indentation b1) (ifGuardStatement (getVariableExistsName env v) v),
           Expression (indentation b1 + 1)
             (outVariableDeclaration (''out_'' @ string_of_nat (outVariableCounter c1))
                (outVariable refs) (pointerToExpression env field)),
           Statement (indentation b1 + 1)
             (if hasAsyncChildren e
              then asyncForLoopStatement v
                     (''index_'' @ string_of_nat (arrayIndexVariableCounter c1))
              else forLoopStatement v
                     (''index_'' @ string_of_nat (arrayIndexVariableCounter c1))),
           NewLine],
         indentation = indentation b1 + 2, allocated = allocated b1\<rparr>) = Inr (c', b7)
    \<and> 2 \<le> indentation b7
    \<and> b' = \<lparr>lines = lines b7 @ [Statement (indentation b7 - 1) ''}'',
                                     Statement (indentation b7 - 2) ''}''],
              indentation = indentation b7 - 2, allocated = allocated b7\<rparr>)"
proof -
  have entry: "\<And>v c1 (b1 :: CompilerBuffer) idx out. 
     newLine ((if hasAsyncChildren e then startAsyncForLoop v idx else startForLoop v idx)
       (declareOutVariable env field refs out (startIfGuard env v (newLine b1)))) =
     \<lparr>lines = lines b1 @
          [NewLine,
           Statement (indentation b1) (ifGuardStatement (getVariableExistsName env v) v),
           Expression (indentation b1 + 1)
             (outVariableDeclaration out (outVariable refs) (pointerToExpression env field)),
           Statement (indentation b1 + 1) (if hasAsyncChildren e then asyncForLoopStatement v idx
              else forLoopStatement v idx),
           NewLine],
         indentation = indentation b1 + 2, allocated = allocated b1\<rparr>"
    by (simp add: buffer_defs)
  have exit: "\<And>b7 b'. (case endForLoop b7 of Inl err \<Rightarrow> Inl err
                | Inr buff8 \<Rightarrow> (case endIfGuard buff8 of Inl err \<Rightarrow> Inl err
                                | Inr buff9 \<Rightarrow> Inr (c', buff9))) = Inr (c', b')
        \<longleftrightarrow> 2 \<le> indentation b7 \<and>
            b' = \<lparr>lines = lines b7 @ [Statement (indentation b7 - 1) ''}'',
                                     Statement (indentation b7 - 2) ''}''],
              indentation = indentation b7 - 2, allocated = allocated b7\<rparr>"
    by (auto simp: buffer_defs split: sum.splits)
  let ?L = "arrayLiteral field rs (Some e) refs"
  show ?thesis
  proof (cases "literalCompile env ?L (c, b)")
    case (Inl err)
    then show ?thesis by simp
  next
    case (Inr r)
    obtain v c1 b1 where r: "r = (v, c1, b1)" by (cases r)
    define idx where "idx = ''index_'' @ string_of_nat (arrayIndexVariableCounter c1)"
    define out where "out = ''out_'' @ string_of_nat (outVariableCounter c1)"
    define c3 where "c3 = c1\<lparr>arrayIndexVariableCounter := arrayIndexVariableCounter c1 + 1,
                outVariableCounter := outVariableCounter c1 + 1\<rparr>"
    define b6 where "b6 = newLine ((if hasAsyncChildren e then startAsyncForLoop v idx
                                     else startForLoop v idx)
       (declareOutVariable env field refs out (startIfGuard env v (newLine b1))))"
    let ?fld = "\<lparr>field_name = idx, field_type = IdentifierField\<rparr>"
    have compile_eq: "compile env field (SchemaArray rs (Some e)) refs (c, b) =
       (case compileNode env ?fld e (parentPointer refs @ [field]) v out (c3, b6) of
            Inl err \<Rightarrow> Inl err
          | Inr (c4, b7) \<Rightarrow>
              (case endForLoop b7 of Inl err \<Rightarrow> Inl err
                | Inr buff8 \<Rightarrow> (case endIfGuard buff8 of Inl err \<Rightarrow> Inl err
                                | Inr buff9 \<Rightarrow> Inr (c4, buff9))))"
      using Inr r by (simp add: Let_def idx_def out_def c3_def b6_def)
    have b6_eq: "b6 = \<lparr>lines = lines b1 @
          [NewLine,
           Statement (indentation b1) (ifGuardStatement (getVariableExistsName env v) v),
           Expression (indentation b1 + 1)
             (outVariableDeclaration out (outVariable refs) (pointerToExpression env field)),
           Statement (indentation b1 + 1) (if hasAsyncChildren e then asyncForLoopStatement v idx
              else forLoopStatement v idx),
           NewLine],
         indentation = indentation b1 + 2, allocated = allocated b1\<rparr>"
      unfolding b6_def by (rule entry)
    show ?thesis
    proof (cases "compileNode env ?fld e (parentPointer refs @ [field]) v out (c3, b6)")
      case (Inl err)
      then show ?thesis
        using Inr r compile_eq b6_eq by (auto simp: idx_def out_def c3_def)
    next
      case inner: (Inr r')
      obtain c4 b7 where r': "r' = (c4, b7)" by (cases r')
      have "compile env field (SchemaArray rs (Some e)) refs (c, b) = Inr (c', b') \<longleftrightarrow>
            c4 = c' \<and> 2 \<le> indentation b7 \<and>
            b' = \<lparr>lines = lines b7 @ [Statement (indentation b7 - 1) ''}'',
                                     Statement (indentation b7 - 2) ''}''],
              indentation = indentation b7 - 2, allocated = allocated b7\<rparr>"
        using compile_eq inner r' by (auto simp: buffer_defs split: sum.splits)
      then show ?thesis
        using Inr r inner r' b6_eq by (auto simp: idx_def out_def c3_def)
    qed
  qed
qed

subsection \<open>Blocks of the emitted code\<close>

lemma reached_append:
  "reached holds stack (xs @ ys) =
     reached holds stack xs @ reached holds (blocks_after holds stack xs) ys"
  by (induction xs arbitrary: stack) (simp_all add: Let_def)

lemma blocks_after_append:
  "blocks_after holds stack (xs @ ys) =
     blocks_after holds (blocks_after holds stack xs) ys"
  by (induction xs arbitrary: stack) (simp_all add: Let_def)

lemma length_reached: "length (reached holds stack ls) = length ls"
  by (induction ls arbitrary: stack) (simp_all add: Let_def)

lemma bracket_depth_append:
  "bracket_depth d (xs @ ys) =
     (case bracket_depth d xs of None \<Rightarrow> None | Some d' \<Rightarrow> bracket_depth d' ys)"
  by (induction xs arbitrary: d) simp_all

lemma bracket_depth_shift:
  "bracket_depth d ls = Some d' \<Longrightarrow> bracket_depth (d + k) ls = Some (d' + k)"
proof (induction ls arbitrary: d)
  case Nil
  then show ?case by simp
next
  case (Cons l rest)
  define d1 where
    "d1 = (if closes_block l then d - 1 else d) + (if opens_block l then 1 else 0)"
  from Cons.prems have ok: "\<not> (closes_block l \<and> d = 0)"
    and rest: "bracket_depth d1 rest = Some d'"
    by (auto simp: d1_def split: if_splits)
  from ok have "(if closes_block l then d + k - 1 else d + k)
                  + (if opens_block l then 1 else 0) = d1 + k"
    by (auto simp: d1_def)
  with Cons.IH [OF rest] ok show ?case by simp
qed

lemma dead_block:
  "bracket_depth d ls = Some d' \<Longrightarrow>
     reached holds (replicate (Suc d) False @ stack) ls = replicate (length ls) False
   \<and> blocks_after holds (replicate (Suc d) False @ stack) ls = replicate (Suc d') False @ stack"
proof (induction ls arbitrary: d)
  case Nil
  then show ?case by simp
next
  case (Cons l rest)
  show ?case
  proof (cases "closes_block l")
    case True
    with Cons.prems obtain d0 where d: "d = Suc d0"
      by (cases d) (auto split: if_splits)
    from Cons.prems True d
    have rest: "bracket_depth (d0 + (if opens_block l then 1 else 0)) rest = Some d'" by simp
    show ?thesis
    proof (cases "opens_block l")
      case opens: True
      with rest have "bracket_depth (Suc d0) rest = Some d'" by simp
      from Cons.IH [OF this] show ?thesis using True opens d by (simp add: Let_def)
    next
      case closed: False
      with rest have "bracket_depth d0 rest = Some d'" by simp
      from Cons.IH [OF this] show ?thesis using True closed d by (simp add: Let_def)
    qed
  next
    case False
    from Cons.prems False
    have rest: "bracket_depth (d + (if opens_block l then 1 else 0)) rest = Some d'" by simp
    show ?thesis
    proof (cases "opens_block l")
      case opens: True
      with rest have "bracket_depth (Suc d) rest = Some d'" by simp
      from Cons.IH [OF this] show ?thesis using False opens by (simp add: Let_def)
    next
      case closed: False
      with rest have "bracket_depth d rest = Some d'" by simp
      from Cons.IH [OF this] show ?thesis using False closed by (simp add: Let_def)
    qed
  qed
qed

lemma opens_ifGuard [simp]: "opens_block (Statement i (ifGuardStatement ex v))"
  by (simp add: ifGuardStatement_def)
lemma closes_ifGuard [simp]: "\<not> closes_block (Statement i (ifGuardStatement ex v))"
  by (simp add: ifGuardStatement_def)
lemma opens_asyncFor [simp]: "opens_block (Statement i (asyncForLoopStatement v idx))"
  by (simp add: asyncForLoopStatement_def)
lemma closes_asyncFor [simp]: "\<not> closes_block (Statement i (asyncForLoopStatement v idx))"
  by (simp add: asyncForLoopStatement_def)
lemma opens_for [simp]: "opens_block (Statement i (forLoopStatement v idx))"
  by (simp add: forLoopStatement_def)
lemma closes_for [simp]: "\<not> closes_block (Statement i (forLoopStatement v idx))"
  by (simp add: forLoopStatement_def)

lemma guarded_lines_dead:
  assumes header: "opens_block h" "\<not> closes_block h" "\<not> holds (line_text h)"
  and inner: "bracket_depth 0 inner = Some 0"
  and closer: "closes_block c" "\<not> opens_block c"
  shows "reached holds stack (h # inner @ [c])
           = enclosing_runs stack # replicate (length inner) False @ [enclosing_runs stack]
       \<and> blocks_after holds stack (h # inner @ [c]) = stack"
proof -
  from dead_block [OF inner, of holds stack]
  have dead: "reached holds (False # stack) inner = replicate (length inner) False"
    and after: "blocks_after holds (False # stack) inner = False # stack"
    by simp_all
  show ?thesis
    using header closer dead after
    by (simp add: Let_def reached_append blocks_after_append
             del: opens_block.simps closes_block.simps)
qed

lemma element_block_bracketed:
  assumes "well_bracketed body"
  shows "bracket_depth 0
           ([Expression j decl,
             Statement k (if a then asyncForLoopStatement v idx else forLoopStatement v idx),
             NewLine] @ body @ [Statement m ''}'']) = Some 0"
proof -
  from assms have "bracket_depth 0 body = Some 0" by (simp add: well_bracketed_def)
  from bracket_depth_shift [OF this, of 1] have "bracket_depth 1 body = Some 1" by simp
  then show ?thesis
    by (simp add: bracket_depth_append asyncForLoopStatement_def forLoopStatement_def)
qed

subsection \<open>The literal compiler of the specification appends well-bracketed lines\<close>

lemma compileRules_appends:
  "\<exists>body. compileRules guarded existsName v rs buffer = Inr (buffer\<lparr>lines := lines buffer @ body\<rparr>)
         \<and> (\<forall>d. bracket_depth d body = Some d)"
proof (induction rs arbitrary: buffer)
  case Nil
  have "compileRules guarded existsName v [] buffer = Inr (buffer\<lparr>lines := lines buffer @ []\<rparr>)"
    by simp
  then show ?case by (intro exI [of _ "[]"]) simp
next
  case (Cons r rs)
  show ?case
  proof (cases "guarded \<and> \<not> allowUndefineds r")
    case True
    define wrapped where "wrapped =
      [Statement (indentation buffer) (''if ('' @ existsName @ '') {''),
       Expression (indentation buffer + 1) (ruleInvocation r v),
       Statement (indentation buffer) ''}'']"
    define buffer1 where "buffer1 = buffer\<lparr>lines := lines buffer @ wrapped\<rparr>"
    have step: "compileRules guarded existsName v (r # rs) buffer
                  = compileRules guarded existsName v rs buffer1"
      using True
      by (simp add: buffer1_def wrapped_def writeStatement_def writeExpression_def indent_def
            dedent_def)
    from Cons.IH [of buffer1] obtain body where
      body: "compileRules guarded existsName v rs buffer1
               = Inr (buffer1\<lparr>lines := lines buffer1 @ body\<rparr>)"
      and depth: "\<forall>d. bracket_depth d body = Some d" by blast
    have "\<forall>d. bracket_depth d (wrapped @ body) = Some d"
      using depth by (simp add: wrapped_def)
    moreover have "compileRules guarded existsName v (r # rs) buffer
                     = Inr (buffer\<lparr>lines := lines buffer @ (wrapped @ body)\<rparr>)"
      using step body by (simp add: buffer1_def)
    ultimately show ?thesis by blast
  next
    case False
    define buffer1 where
      "buffer1 = buffer\<lparr>lines := lines buffer @
                   [Expression (indentation buffer) (ruleInvocation r v)]\<rparr>"
    have step: "compileRules guarded existsName v (r # rs) buffer
                  = compileRules guarded existsName v rs buffer1"
      using False by (auto simp: buffer1_def writeExpression_def)
    from Cons.IH [of buffer1] obtain body where
      body: "compileRules guarded existsName v rs buffer1
               = Inr (buffer1\<lparr>lines := lines buffer1 @ body\<rparr>)"
      and depth: "\<forall>d. bracket_depth d body = Some d" by blast
    have "\<forall>d. bracket_depth d (Expression (indentation buffer) (ruleInvocation r v) # body)
             = Some d"
      using depth by simp
    moreover have "compileRules guarded existsName v (r # rs) buffer
           = Inr (buffer\<lparr>lines := lines buffer @
                   (Expression (indentation buffer) (ruleInvocation r v) # body)\<rparr>)"
      using step body by (simp add: buffer1_def)
    ultimately show ?thesis by blast
  qed
qed

lemma LiteralCompiler_compile_appends:
  "\<exists>v body k. LiteralCompiler_compile pe ge literal (c, b)
                 = Inr (v, c, b\<lparr>lines := lines b @ body, allocated := k\<rparr>)
             \<and> well_bracketed body"
proof -
  define v where "v = ''val_'' @ string_of_nat (allocated b)"
  define rs where "rs = rules_of (lc_node literal)"
  define refs where "refs = lc_references literal"
  define decls where "decls =
     [Expression (indentation b)
        (valueDeclaration v (referenceVariable refs) (pe (lc_field literal))),
      Expression (indentation b) (existsDeclaration (ge v) v)]"
  define b3 where "b3 =
     writeExpression (existsDeclaration (ge v) v)
       (writeExpression (valueDeclaration v (referenceVariable refs) (pe (lc_field literal)))
          (b\<lparr>allocated := allocated b + 1\<rparr>))"
  show ?thesis
  proof (cases "rs = [] \<and> \<not> forceValueDeclaration literal")
    case True
    have "b = b\<lparr>lines := lines b @ [], allocated := allocated b\<rparr>" by simp
    with True have "LiteralCompiler_compile pe ge literal (c, b)
                 = Inr (v, c, b\<lparr>lines := lines b @ [], allocated := allocated b\<rparr>)"
      by (simp add: LiteralCompiler_compile_def allocateVariable_def Let_def rs_def v_def)
    moreover have "well_bracketed []" by (simp add: well_bracketed_def)
    ultimately show ?thesis by blast
  next
    case False
    from compileRules_appends [of "list_ex allowUndefineds rs" "ge v" v rs b3]
    obtain body where
      body: "compileRules (list_ex allowUndefineds rs) (ge v) v rs b3
               = Inr (b3\<lparr>lines := lines b3 @ body\<rparr>)"
      and depth: "\<forall>d. bracket_depth d body = Some d" by blast
    define tail where "tail =
      (if disableOutVariable literal then []
       else [Expression (indentation b)
               (outAssignment (outVariable refs) (pe (lc_field literal)) v)])"
    define b5 where "b5 =
      (if disableOutVariable literal then b3\<lparr>lines := lines b3 @ body\<rparr>
       else writeExpression (outAssignment (outVariable refs) (pe (lc_field literal)) v)
              (b3\<lparr>lines := lines b3 @ body\<rparr>))"
    have run: "LiteralCompiler_compile pe ge literal (c, b) = Inr (v, c, b5)"
      using False body
      by (auto simp: LiteralCompiler_compile_def allocateVariable_def Let_def rs_def v_def
            b3_def b5_def refs_def)
    have "b5 = b\<lparr>lines := lines b @ (decls @ body @ tail), allocated := allocated b + 1\<rparr>"
      by (simp add: b5_def b3_def decls_def tail_def writeExpression_def)
    with run have "LiteralCompiler_compile pe ge literal (c, b)
            = Inr (v, c, b\<lparr>lines := lines b @ (decls @ body @ tail),
                            allocated := allocated b + 1\<rparr>)" by simp
    moreover have "well_bracketed (decls @ body @ tail)"
      using depth
      by (simp add: well_bracketed_def bracket_depth_append decls_def tail_def)
    ultimately show ?thesis by blast
  qed
qed

lemma compileNode_spec_appends:
  assumes "compileNode_spec fld node pp rv ov (c, b) = Inr (c', b')"
  shows "\<exists>body. lines b' = lines b @ body \<and> well_bracketed body"
    and "indentation b' = indentation b"
    and "c' = c"
proof -
  obtain subtype rs where node: "node = SchemaLiteral subtype rs"
    using assms by (cases node) simp_all
  let ?L = "\<lparr>lc_field = fld, lc_node = SchemaLiteral subtype rs,
              lc_references = \<lparr>outVariable = ov, referenceVariable = rv,
                               parentPointer = pp\<rparr>,
              disableOutVariable = False, forceValueDeclaration = False\<rparr>"
  from LiteralCompiler_compile_appends
         [of pointerToExpression_spec getVariableExistsName_spec ?L c b]
  obtain v body k where
    "LiteralCompiler_compile pointerToExpression_spec getVariableExistsName_spec ?L (c, b)
       = Inr (v, c, b\<lparr>lines := lines b @ body, allocated := k\<rparr>)"
    and wb: "well_bracketed body" by blast
  with assms node have "c' = c" and b': "b' = b\<lparr>lines := lines b @ body, allocated := k\<rparr>"
    by simp_all
  show "c' = c" by fact
  show "indentation b' = indentation b" using b' by simp
  show "\<exists>body. lines b' = lines b @ body \<and> well_bracketed body" using b' wb by auto
qed

subsection \<open>The lines compile writes around the element compilation\<close>

lemma compile_Some_lines:
  assumes run: "compile env field (SchemaArray rs (Some e)) refs (c, b) = Inr (c', b')"
  and appends: "\<forall>fld n pp rv ov s c4 b7.
      compileNode env fld n pp rv ov s = Inr (c4, b7) \<longrightarrow>
      (\<exists>body. lines b7 = lines (snd s) @ body \<and> P body)"
  shows "\<exists>v c1 b1 b6 b7 body.
    literalCompile env (arrayLiteral field rs (Some e) refs) (c, b) = Inr (v, c1, b1)
  \<and> compileNode env
        \<lparr>field_name = ''index_'' @ string_of_nat (arrayIndexVariableCounter c1),
          field_type = IdentifierField\<rparr>
        e (parentPointer refs @ [field]) v (''out_'' @ string_of_nat (outVariableCounter c1))
        (c1\<lparr>arrayIndexVariableCounter := arrayIndexVariableCounter c1 + 1,
            outVariableCounter := outVariableCounter c1 + 1\<rparr>, b6) = Inr (c', b7)
  \<and> lines b6 = lines b1 @
          [NewLine,
           Statement (indentation b1) (ifGuardStatement (getVariableExistsName env v) v),
           Expression (indentation b1 + 1)
             (outVariableDeclaration (''out_'' @ string_of_nat (outVariableCounter c1))
                (outVariable refs) (pointerToExpression env field)),
           Statement (indentation b1 + 1)
             (if hasAsyncChildren e
              then asyncForLoopStatement v
                     (''index_'' @ string_of_nat (arrayIndexVariableCounter c1))
              else forLoopStatement v
                     (''index_'' @ string_of_nat (arrayIndexVariableCounter c1))),
           NewLine]
  \<and> indentation b6 = indentation b1 + 2
  \<and> lines b7 = lines b6 @ body
  \<and> P body
  \<and> 2 \<le> indentation b7
  \<and> lines b' = lines b7 @ [Statement (indentation b7 - 1) ''}'',
                           Statement (indentation b7 - 2) ''}'']
  \<and> indentation b' = indentation b7 - 2"
proof -
  from run [unfolded compile_Some_Inr] obtain v c1 b1 b7 where
    lit: "literalCompile env (arrayLiteral field rs (Some e) refs) (c, b) = Inr (v, c1, b1)"
    and elem: "compileNode env
        \<lparr>field_name = ''index_'' @ string_of_nat (arrayIndexVariableCounter c1),
          field_type = IdentifierField\<rparr>
        e (parentPointer refs @ [field]) v (''out_'' @ string_of_nat (outVariableCounter c1))
        (c1\<lparr>arrayIndexVariableCounter := arrayIndexVariableCounter c1 + 1,
            outVariableCounter := outVariableCounter c1 + 1\<rparr>,
         \<lparr>lines = lines b1 @
          [NewLine,
           Statement (indentation b1) (ifGuardStatement (getVariableExistsName env v) v),
           Expression (indentation b1 + 1)
             (outVariableDeclaration (''out_'' @ string_of_nat (outVariableCounter c1))
                (outVariable refs) (pointerToExpression env field)),
           Statement (indentation b1 + 1)
             (if hasAsyncChildren e
              then asyncForLoopStatement v
                     (''index_'' @ string_of_nat (arrayIndexVariableCounter c1))
              else forLoopStatement v
                     (''index_'' @ string_of_nat (arrayIndexVariableCounter c1))),
           NewLine],
         indentation = indentation b1 + 2, allocated = allocated b1\<rparr>) = Inr (c', b7)"
    and deep: "2 \<le> indentation b7"
    and b': "b' = \<lparr>lines = lines b7 @ [Statement (indentation b7 - 1) ''}'',
                                     Statement (indentation b7 - 2) ''}''],
              indentation = indentation b7 - 2, allocated = allocated b7\<rparr>"
    by blast
  from appends elem obtain body where
    body: "lines b7 = (lines b1 @
          [NewLine,
           Statement (indentation b1) (ifGuardStatement (getVariableExistsName env v) v),
           Expression (indentation b1 + 1)
             (outVariableDeclaration (''out_'' @ string_of_nat (outVariableCounter c1))
                (outVariable refs) (pointerToExpression env field)),
           Statement (indentation b1 + 1)
             (if hasAsyncChildren e
              then asyncForLoopStatement v
                     (''index_'' @ string_of_nat (arrayIndexVariableCounter c1))
              else forLoopStatement v
                     (''index_'' @ string_of_nat (arrayIndexVariableCounter c1))),
           NewLine]) @ body" and P: "P body"
    by fastforce
  show ?thesis
    apply (rule exI [of _ v], rule exI [of _ c1], rule exI [of _ b1])
    apply (rule exI, rule exI [of _ b7], rule exI [of _ body])
    apply (intro conjI)
            apply (rule lit)
           apply (rule elem)
          apply (simp_all add: body b' P deep)
    done
qed

lemma compile_None_eq:
  "rs \<noteq> [] \<Longrightarrow>
   compile env field (SchemaArray rs None) refs (c, b) =
     (case literalCompile env (arrayLiteral field rs None refs) (c, b) of
        Inl err \<Rightarrow> Inl err
      | Inr (v, c1, b1) \<Rightarrow> Inr (c1, b1))"
  by (simp split: sum.splits prod.splits)

subsection \<open>The worked example, evaluated\<close>

lemmas example_defs = example_field_def example_refs_def example_state_def
  example_compiler_def example_buffer_def array_rule_def unique_rule_def string_compile_def

lemmas spec_defs = specCollaborators_def LiteralCompiler_compile_def allocateVariable_def
  pointerToExpression_spec_def getVariableExistsName_spec_def valueDeclaration_def
  existsDeclaration_def ruleInvocation_def outAssignment_def arrayLiteral_def

lemmas text_defs = ifGuardStatement_def asyncForLoopStatement_def forLoopStatement_def
  outVariableDeclaration_def

lemma example_run:
  "compile specCollaborators example_field
     (SchemaArray [array_rule] (Some (SchemaLiteral ''string'' [string_compile])))
     example_refs example_state =
   Inr (\<lparr>arrayIndexVariableCounter = 2, outVariableCounter = 3\<rparr>,
        \<lparr>lines =
           [Expression 2 ''const val_1 = val_0[index_0]'',
            Expression 2 ''const val_1_exists = helpers.exists(val_1)'',
            Expression 2 ''validations.array.validate(val_1)'',
            NewLine,
            Statement 2 ''if (val_1_exists && Array.isArray(val_1)) {'',
            Expression 3 ''const out_2 = out_1[index_0] = []'',
            Statement 3 ''for (let index_1 = 0; index_1 < val_1.length; index_1++) {'',
            NewLine,
            Expression 4 ''const val_2 = val_1[index_1]'',
            Expression 4 ''const val_2_exists = helpers.exists(val_2)'',
            Expression 4 ''validations.string.validate(val_2)'',
            Expression 4 ''out_2[index_1] = val_2'',
            Statement 3 ''}'',
            Statement 2 ''}''],
         indentation = 2, allocated = 3\<rparr>)"
  by (simp add: example_defs spec_defs text_defs buffer_defs Let_def string_of_nat.simps
        digit_char_def)

lemma example_run_async:
  "compile specCollaborators example_field
     (SchemaArray [array_rule] (Some (SchemaLiteral ''string'' [string_compile, unique_rule])))
     example_refs example_state =
   Inr (\<lparr>arrayIndexVariableCounter = 2, outVariableCounter = 3\<rparr>,
        \<lparr>lines =
           [Expression 2 ''const val_1 = val_0[index_0]'',
            Expression 2 ''const val_1_exists = helpers.exists(val_1)'',
            Expression 2 ''validations.array.validate(val_1)'',
            NewLine,
            Statement 2 ''if (val_1_exists && Array.isArray(val_1)) {'',
            Expression 3 ''const out_2 = out_1[index_0] = []'',
            Statement 3 ''for (let [index_1] of val_1.entries()) {'',
            NewLine,
            Expression 4 ''const val_2 = val_1[index_1]'',
            Expression 4 ''const val_2_exists = helpers.exists(val_2)'',
            Expression 4 ''validations.string.validate(val_2)'',
            Expression 4 ''await validations.unique.validate(val_2)'',
            Expression 4 ''out_2[index_1] = val_2'',
            Statement 3 ''}'',
            Statement 2 ''}''],
         indentation = 2, allocated = 3\<rparr>)"
  by (simp add: example_defs spec_defs text_defs buffer_defs Let_def string_of_nat.simps
        digit_char_def)

lemma example_literal_step:
  "literalCompile specCollaborators
     (arrayLiteral example_field [array_rule]
        (Some (SchemaLiteral ''string'' [string_compile])) example_refs) example_state =
   Inr (''val_1'', \<lparr>arrayIndexVariableCounter = 1, outVariableCounter = 2\<rparr>,
        \<lparr>lines =
           [Expression 2 ''const val_1 = val_0[index_0]'',
            Expression 2 ''const val_1_exists = helpers.exists(val_1)'',
            Expression 2 ''validations.array.validate(val_1)''],
         indentation = 2, allocated = 2\<rparr>)"
  by (simp add: example_defs spec_defs text_defs buffer_defs Let_def string_of_nat.simps
        digit_char_def)

lemma spec_compileNode_contract:
  assumes "compileNode specCollaborators fld n pp rv ov s = Inr (c4, b7)"
  shows "\<exists>body. lines b7 = lines (snd s) @ body \<and> well_bracketed body"
    and "indentation b7 = indentation (snd s)"
proof -
  obtain c b where s: "s = (c, b)" by (cases s)
  from assms s have run: "compileNode_spec fld n pp rv ov (c, b) = Inr (c4, b7)"
    by (simp add: specCollaborators_def)
  from compileNode_spec_appends(1) [OF run] s
  show "\<exists>body. lines b7 = lines (snd s) @ body \<and> well_bracketed body" by simp
  from compileNode_spec_appends(2) [OF run] s
  show "indentation b7 = indentation (snd s)" by simp
qed

lemma spec_literalCompile_contract:
  assumes "literalCompile specCollaborators literal s = Inr (v, c1, b1)"
  shows "indentation b1 = indentation (snd s)"
proof -
  obtain c b where s: "s = (c, b)" by (cases s)
  from LiteralCompiler_compile_appends
         [of pointerToExpression_spec getVariableExistsName_spec literal c b]
  obtain v' body k where
    "LiteralCompiler_compile pointerToExpression_spec getVariableExistsName_spec literal (c, b)
       = Inr (v', c, b\<lparr>lines := lines b @ body, allocated := k\<rparr>)" by blast
  with assms s have "b1 = b\<lparr>lines := lines b @ body, allocated := k\<rparr>"
    by (simp add: specCollaborators_def)
  then show ?thesis using s by simp
qed

subsection \<open>When compile fails\<close>

lemma compile_Some_Inl:
  assumes failed: "compile env field (SchemaArray rs (Some e)) refs (c, b) = Inl err"
  shows "literalCompile env (arrayLiteral field rs (Some e) refs) (c, b) = Inl err
       \<or> (\<exists>v c1 b1 fld out c3 b6.
            literalCompile env (arrayLiteral field rs (Some e) refs) (c, b) = Inr (v, c1, b1)
          \<and> indentation b6 = indentation b1 + 2
          \<and> (compileNode env fld e (parentPointer refs @ [field]) v out (c3, b6) = Inl err
             \<or> (\<exists>c4 b7. compileNode env fld e (parentPointer refs @ [field]) v out (c3, b6)
                           = Inr (c4, b7)
                        \<and> indentation b7 < 2)))"
proof (cases "literalCompile env (arrayLiteral field rs (Some e) refs) (c, b)")
  case (Inl err')
  with failed show ?thesis by simp
next
  case (Inr r)
  obtain v c1 b1 where r: "r = (v, c1, b1)" by (cases r)
  define idx where "idx = ''index_'' @ string_of_nat (arrayIndexVariableCounter c1)"
  define out where "out = ''out_'' @ string_of_nat (outVariableCounter c1)"
  define c3 where "c3 = c1\<lparr>arrayIndexVariableCounter := arrayIndexVariableCounter c1 + 1,
              outVariableCounter := outVariableCounter c1 + 1\<rparr>"
  define b6 where "b6 = newLine ((if hasAsyncChildren e then startAsyncForLoop v idx
                                   else startForLoop v idx)
     (declareOutVariable env field refs out (startIfGuard env v (newLine b1))))"
  let ?fld = "\<lparr>field_name = idx, field_type = IdentifierField\<rparr>"
  have compile_eq: "compile env field (SchemaArray rs (Some e)) refs (c, b) =
     (case compileNode env ?fld e (parentPointer refs @ [field]) v out (c3, b6) of
          Inl err \<Rightarrow> Inl err
        | Inr (c4, b7) \<Rightarrow>
            (case endForLoop b7 of Inl err \<Rightarrow> Inl err
              | Inr buff8 \<Rightarrow> (case endIfGuard buff8 of Inl err \<Rightarrow> Inl err
                              | Inr buff9 \<Rightarrow> Inr (c4, buff9))))"
    using Inr r by (simp add: Let_def idx_def out_def c3_def b6_def)
  have deep: "indentation b6 = indentation b1 + 2"
    by (simp add: b6_def buffer_defs)
  show ?thesis
  proof (cases "compileNode env ?fld e (parentPointer refs @ [field]) v out (c3, b6)")
    case (Inl err')
    with failed compile_eq have "err' = err" by simp
    with Inl Inr r deep show ?thesis by blast
  next
    case inner: (Inr r')
    obtain c4 b7 where r': "r' = (c4, b7)" by (cases r')
    from failed compile_eq inner r' have "indentation b7 < 2"
      by (auto simp: buffer_defs split: sum.splits if_splits)
    with inner r' Inr r deep show ?thesis by blast
  qed
qed

subsection \<open>The literal step of the specification, with the declaration forced\<close>

lemma LiteralCompiler_compile_forced:
  assumes forced: "forceValueDeclaration literal"
  shows "\<exists>common. \<forall>flag.
     LiteralCompiler_compile pe ge (literal\<lparr>disableOutVariable := flag\<rparr>) (c, b) =
       Inr (''val_'' @ string_of_nat (allocated b), c,
            b\<lparr>lines := lines b @
                 (Expression (indentation b)
                    (valueDeclaration (''val_'' @ string_of_nat (allocated b))
                       (referenceVariable (lc_references literal)) (pe (lc_field literal)))
                  # common)
                 @ (if flag then []
                    else [Expression (indentation b)
                            (outAssignment (outVariable (lc_references literal))
                               (pe (lc_field literal))
                               (''val_'' @ string_of_nat (allocated b)))]),
              allocated := allocated b + 1\<rparr>)"
proof -
  define v where "v = ''val_'' @ string_of_nat (allocated b)"
  define rs where "rs = rules_of (lc_node literal)"
  define refs where "refs = lc_references literal"
  define b3 where "b3 =
     writeExpression (existsDeclaration (ge v) v)
       (writeExpression (valueDeclaration v (referenceVariable refs) (pe (lc_field literal)))
          (b\<lparr>allocated := allocated b + 1\<rparr>))"
  from compileRules_appends [of "list_ex allowUndefineds rs" "ge v" v rs b3]
  obtain body where
    body: "compileRules (list_ex allowUndefineds rs) (ge v) v rs b3
             = Inr (b3\<lparr>lines := lines b3 @ body\<rparr>)" by blast
  have "LiteralCompiler_compile pe ge (literal\<lparr>disableOutVariable := flag\<rparr>) (c, b) =
       Inr (v, c,
            b\<lparr>lines := lines b @
                 (Expression (indentation b)
                    (valueDeclaration v (referenceVariable refs) (pe (lc_field literal)))
                  # (Expression (indentation b) (existsDeclaration (ge v) v) # body))
                 @ (if flag then []
                    else [Expression (indentation b)
                            (outAssignment (outVariable refs) (pe (lc_field literal)) v)]),
              allocated := allocated b + 1\<rparr>)" for flag
  proof -
    define b5 where "b5 =
      (if flag then b3\<lparr>lines := lines b3 @ body\<rparr>
       else writeExpression (outAssignment (outVariable refs) (pe (lc_field literal)) v)
              (b3\<lparr>lines := lines b3 @ body\<rparr>))"
    have run: "LiteralCompiler_compile pe ge (literal\<lparr>disableOutVariable := flag\<rparr>) (c, b)
                 = Inr (v, c, b5)"
      using forced body
      by (auto simp: LiteralCompiler_compile_def allocateVariable_def Let_def rs_def v_def
            b3_def b5_def refs_def)
    have "b5 = b\<lparr>lines := lines b @
                 (Expression (indentation b)
                    (valueDeclaration v (referenceVariable refs) (pe (lc_field literal)))
                  # (Expression (indentation b) (existsDeclaration (ge v) v) # body))
                 @ (if flag then []
                    else [Expression (indentation b)
                            (outAssignment (outVariable refs) (pe (lc_field literal)) v)]),
              allocated := allocated b + 1\<rparr>"
      by (simp add: b5_def b3_def writeExpression_def)
    with run show ?thesis by simp
  qed
  then show ?thesis unfolding v_def refs_def by blast
qed

lemma LiteralCompiler_compile_arrayLiteral:
  "\<exists>common. \<forall>flag.
     LiteralCompiler_compile pe ge
       ((arrayLiteral field rs each refs)\<lparr>disableOutVariable := flag\<rparr>) (c, b) =
       Inr (''val_'' @ string_of_nat (allocated b), c,
            b\<lparr>lines := lines b @
                 (Expression (indentation b)
                    (valueDeclaration (''val_'' @ string_of_nat (allocated b))
                       (referenceVariable refs) (pe field))
                  # common)
                 @ (if flag then []
                    else [Expression (indentation b)
                            (outAssignment (outVariable refs) (pe field)
                               (''val_'' @ string_of_nat (allocated b)))]),
              allocated := allocated b + 1\<rparr>)"
proof -
  have forced: "forceValueDeclaration (arrayLiteral field rs each refs)"
    and refs: "lc_references (arrayLiteral field rs each refs) = refs"
    and field: "lc_field (arrayLiteral field rs each refs) = field"
    by (simp_all add: arrayLiteral_def)
  from LiteralCompiler_compile_forced [OF forced, of pe ge c b]
  show ?thesis unfolding refs field .
qed

section \<open>Properties of the rules\<close>

text \<open>
  C4. For every input value the object rule's \<^verbatim>\<open>validate\<close> returns with exactly one
  more report in the reporter, carrying the rule name \<^verbatim>\<open>object\<close>, the current
  pointer, the rule's default message and the array expression pointer, if
  \<^verbatim>\<open>typeof value\<close> is not \<^verbatim>\<open>'object'\<close>, or the value is an array, or the value
  is \<^verbatim>\<open>null\<close>; for every other value it reports nothing. The values that pass are
  exactly the plain keyed containers.
\<close>

theorem object_validate_reports:
  "object_validate value opts ctx =
     Inr (errorReporter ctx @
       (if typeof value \<noteq> ''object'' \<or> isArray value \<or> value = JNull
        then [\<lparr>v_pointer = pointer ctx, v_rule = ''object'',
               v_message = ''object validation failed'',
               v_arrayExpressionPointer = arrayExpressionPointer ctx\<rparr>]
        else []))
   \<and> ((typeof value \<noteq> ''object'' \<or> isArray value \<or> value = JNull)
        = (\<forall>props. value \<noteq> JObject props))"
proof
  show "object_validate value opts ctx =
     Inr (errorReporter ctx @
       (if typeof value \<noteq> ''object'' \<or> isArray value \<or> value = JNull
        then [\<lparr>v_pointer = pointer ctx, v_rule = ''object'',
               v_message = ''object validation failed'',
               v_arrayExpressionPointer = arrayExpressionPointer ctx\<rparr>]
        else []))"
    by (simp add: object_validate_def report_def object_DEFAULT_MESSAGE_def)
  show "(typeof value \<noteq> ''object'' \<or> isArray value \<or> value = JNull)
        = (\<forall>props. value \<noteq> JObject props)"
    by (cases "value") simp_all
qed

theorem object_validate_reports_witness:
  "object_validate (JArray []) ()
     \<lparr>errorReporter = [], pointer = '''', arrayExpressionPointer = None\<rparr>
     = Inr [\<lparr>v_pointer = '''', v_rule = ''object'', v_message = ''object validation failed'',
              v_arrayExpressionPointer = None\<rparr>]
   \<and> object_validate JNull ()
     \<lparr>errorReporter = [], pointer = '''', arrayExpressionPointer = None\<rparr>
     = Inr [\<lparr>v_pointer = '''', v_rule = ''object'', v_message = ''object validation failed'',
              v_arrayExpressionPointer = None\<rparr>]
   \<and> object_validate (JObject [(''a'', JString ''x'')]) ()
     \<lparr>errorReporter = [], pointer = '''', arrayExpressionPointer = None\<rparr>
     = Inr []"
  using object_validate_reports [of "JArray []" "()"
          "\<lparr>errorReporter = [], pointer = '''', arrayExpressionPointer = None\<rparr>"]
        object_validate_reports [of JNull "()"
          "\<lparr>errorReporter = [], pointer = '''', arrayExpressionPointer = None\<rparr>"]
        object_validate_reports [of "JObject [(''a'', JString ''x'')]" "()"
          "\<lparr>errorReporter = [], pointer = '''', arrayExpressionPointer = None\<rparr>"]
  by simp

text \<open>
  C5. For every input value the string rule's \<^verbatim>\<open>validate\<close> adds exactly one report
  with the rule name \<^verbatim>\<open>string\<close> if \<^verbatim>\<open>typeof value\<close> is not
  \<^verbatim>\<open>'string'\<close> and adds nothing otherwise; in both cases the call returns normally
  (\<open>Inr\<close>), the violation being visible in the reporter alone. The values that pass are
  exactly the primitive strings.
\<close>

theorem string_validate_reports:
  "string_validate value opts ctx =
     Inr (errorReporter ctx @
       (if typeof value \<noteq> ''string''
        then [\<lparr>v_pointer = pointer ctx, v_rule = ''string'',
               v_message = ''string validation failed'',
               v_arrayExpressionPointer = arrayExpressionPointer ctx\<rparr>]
        else []))
   \<and> ((typeof value = ''string'') = (\<exists>s. value = JString s))"
proof
  show "string_validate value opts ctx =
     Inr (errorReporter ctx @
       (if typeof value \<noteq> ''string''
        then [\<lparr>v_pointer = pointer ctx, v_rule = ''string'',
               v_message = ''string validation failed'',
               v_arrayExpressionPointer = arrayExpressionPointer ctx\<rparr>]
        else []))"
    by (simp add: string_validate_def report_def string_DEFAULT_MESSAGE_def)
  show "(typeof value = ''string'') = (\<exists>s. value = JString s)"
    by (cases "value") simp_all
qed

text \<open>
  C10. The object rule reports a violation for every value whose \<^verbatim>\<open>typeof\<close> is not
  \<^verbatim>\<open>'object'\<close>. \<^verbatim>\<open>undefined\<close> and functions are such values: a function is
  rejected whatever keyed properties it carries.
\<close>

theorem object_validate_rejects_functions:
  "(typeof value \<noteq> ''object'' \<longrightarrow>
      object_validate value opts ctx =
        Inr (errorReporter ctx @
          [\<lparr>v_pointer = pointer ctx, v_rule = ''object'',
            v_message = ''object validation failed'',
            v_arrayExpressionPointer = arrayExpressionPointer ctx\<rparr>]))
   \<and> typeof JUndefined \<noteq> ''object''
   \<and> typeof (JFunction props) \<noteq> ''object''
   \<and> object_validate (JFunction props) opts ctx =
        Inr (errorReporter ctx @
          [\<lparr>v_pointer = pointer ctx, v_rule = ''object'',
            v_message = ''object validation failed'',
            v_arrayExpressionPointer = arrayExpressionPointer ctx\<rparr>])"
  by (simp add: object_validate_def report_def object_DEFAULT_MESSAGE_def)

theorem object_validate_rejects_functions_witness:
  "object_validate (JFunction [(''a'', JNumber (Finite 1))]) ()
     \<lparr>errorReporter = [], pointer = ''profile'', arrayExpressionPointer = None\<rparr>
     = Inr [\<lparr>v_pointer = ''profile'', v_rule = ''object'',
              v_message = ''object validation failed'', v_arrayExpressionPointer = None\<rparr>]
   \<and> object_validate JUndefined ()
     \<lparr>errorReporter = [], pointer = ''profile'', arrayExpressionPointer = None\<rparr>
     = Inr [\<lparr>v_pointer = ''profile'', v_rule = ''object'',
              v_message = ''object validation failed'', v_arrayExpressionPointer = None\<rparr>]"
  using object_validate_rejects_functions [of "JFunction [(''a'', JNumber (Finite 1))]" "()"
          "\<lparr>errorReporter = [], pointer = ''profile'', arrayExpressionPointer = None\<rparr>" "[]"]
        object_validate_rejects_functions [of JUndefined "()"
          "\<lparr>errorReporter = [], pointer = ''profile'', arrayExpressionPointer = None\<rparr>" "[]"]
  by simp

section \<open>Properties of the array compiler\<close>

text \<open>
  C7. For every array node whose rules list is empty and which has no element schema,
  \<^verbatim>\<open>compile\<close> returns at once: it writes nothing to the buffer and leaves the whole
  compiler state, the two counters included, as it found it, whatever the collaborators
  are.
\<close>

theorem compile_empty_node_writes_nothing:
  "compile env field (SchemaArray [] None) refs (compiler, buff) = Inr (compiler, buff)"
  by simp

theorem compile_empty_node_writes_nothing_witness:
  "compile specCollaborators example_field (SchemaArray [] None) example_refs
     (\<lparr>arrayIndexVariableCounter = 1, outVariableCounter = 2\<rparr>,
      \<lparr>lines = [Statement 1 ''for (let index_0 = 0; index_0 < val_0.length; index_0++) {''],
       indentation = 2, allocated = 1\<rparr>)
   = Inr (\<lparr>arrayIndexVariableCounter = 1, outVariableCounter = 2\<rparr>,
      \<lparr>lines = [Statement 1 ''for (let index_0 = 0; index_0 < val_0.length; index_0++) {''],
       indentation = 2, allocated = 1\<rparr>)"
  using compile_empty_node_writes_nothing [of specCollaborators example_field example_refs
          "\<lparr>arrayIndexVariableCounter = 1, outVariableCounter = 2\<rparr>"
          "\<lparr>lines = [Statement 1 ''for (let index_0 = 0; index_0 < val_0.length; index_0++) {''],
            indentation = 2, allocated = 1\<rparr>"]
  by simp

text \<open>
  C9. On every schema tree \<^verbatim>\<open>hasAsyncChildren\<close> returns: a call stack as deep as the
  tree (or deeper) is enough for the bounded method to return, and what it returns is
  the boolean the method computes. The method only reads the node: it takes the node and
  yields a boolean, and no compiler state goes in or comes out.
\<close>

theorem hasAsyncChildren_terminates:
  "hasAsyncChildren_bounded (nesting_depth node + extra) node = Some (hasAsyncChildren node)"
  using bounded_aux(1) [of node] by simp

theorem hasAsyncChildren_terminates_witness:
  "hasAsyncChildren_bounded 3
     (SchemaArray [array_rule]
        (Some (SchemaObject [] [(''name'', SchemaLiteral ''string'' [unique_rule])])))
   = Some True
   \<and> hasAsyncChildren_bounded 2
     (SchemaArray [array_rule]
        (Some (SchemaObject [] [(''name'', SchemaLiteral ''string'' [unique_rule])])))
   = None"
  using hasAsyncChildren_terminates
          [of "SchemaArray [array_rule]
                 (Some (SchemaObject [] [(''name'', SchemaLiteral ''string'' [unique_rule])]))" 0]
  by (simp add: array_rule_def unique_rule_def numeral_3_eq_3 numeral_2_eq_2)

text \<open>
  C1. For every array node with an element schema, \<^verbatim>\<open>compile\<close> writes one loop header
  between the declaration of the output accumulator and the lines of the element
  compilation: the \<^verbatim>\<open>for ... of\<close> form over the entries if some rule at or below the
  element schema (its own rules, those below nested element schemas and those below
  object children) is asynchronous, and the indexed \<^verbatim>\<open>for\<close> form otherwise. The
  choice is made by \<^verbatim>\<open>hasAsyncChildren\<close> while compiling and the emitted text holds
  only the chosen form. The element compilation is assumed to append to the buffer.
\<close>

theorem compile_selects_loop_form:
  assumes run: "compile env field (SchemaArray rs (Some e)) refs (c, b) = Inr (c', b')"
  and appends: "\<forall>fld n pp rv ov s c4 b7.
      compileNode env fld n pp rv ov s = Inr (c4, b7) \<longrightarrow>
      (\<exists>body. lines b7 = lines (snd s) @ body)"
  shows "\<exists>v c1 b1 body j k.
      literalCompile env (arrayLiteral field rs (Some e) refs) (c, b) = Inr (v, c1, b1)
    \<and> lines b' = lines b1 @
         [NewLine,
          Statement (indentation b1) (ifGuardStatement (getVariableExistsName env v) v),
          Expression (indentation b1 + 1)
            (outVariableDeclaration (''out_'' @ string_of_nat (outVariableCounter c1))
               (outVariable refs) (pointerToExpression env field)),
          Statement (indentation b1 + 1)
            (if (\<exists>r\<in>set (all_rules e). async r)
             then asyncForLoopStatement v
                    (''index_'' @ string_of_nat (arrayIndexVariableCounter c1))
             else forLoopStatement v
                    (''index_'' @ string_of_nat (arrayIndexVariableCounter c1))),
          NewLine]
         @ body @ [Statement j ''}'', Statement k ''}'']
    \<and> hasAsyncChildren e = (\<exists>r\<in>set (all_rules e). async r)"
proof -
  from appends have appends': "\<forall>fld n pp rv ov s c4 b7.
      compileNode env fld n pp rv ov s = Inr (c4, b7) \<longrightarrow>
      (\<exists>body. lines b7 = lines (snd s) @ body \<and> True)" by simp
  from compile_Some_lines [where P = "\<lambda>body. True", OF run appends'] show ?thesis
  proof (elim exE conjE, goal_cases)
    case (1 v c1 b1 b6 b7 body)
    note lit = 1(1) and b6 = 1(3) and b7 = 1(5) and b' = 1(8)
    have async: "hasAsyncChildren e = (\<exists>r\<in>set (all_rules e). async r)"
      by (rule hasAsync_all_rules(1))
    have "lines b' = lines b1 @
           [NewLine,
            Statement (indentation b1) (ifGuardStatement (getVariableExistsName env v) v),
            Expression (indentation b1 + 1)
              (outVariableDeclaration (''out_'' @ string_of_nat (outVariableCounter c1))
                 (outVariable refs) (pointerToExpression env field)),
            Statement (indentation b1 + 1)
              (if (\<exists>r\<in>set (all_rules e). async r)
               then asyncForLoopStatement v
                      (''index_'' @ string_of_nat (arrayIndexVariableCounter c1))
               else forLoopStatement v
                      (''index_'' @ string_of_nat (arrayIndexVariableCounter c1))),
            NewLine]
           @ body @ [Statement (indentation b7 - 1) ''}'', Statement (indentation b7 - 2) ''}'']"
      unfolding b' b7 b6 async by simp
    with lit async show ?case by blast
  qed
qed

theorem compile_selects_loop_form_witness:
  "\<exists>v c1 b1 body j k.
      literalCompile specCollaborators
        (arrayLiteral example_field [array_rule]
           (Some (SchemaLiteral ''string'' [string_compile, unique_rule])) example_refs)
        example_state = Inr (v, c1, b1)
    \<and> [Expression 2 ''const val_1 = val_0[index_0]'',
        Expression 2 ''const val_1_exists = helpers.exists(val_1)'',
        Expression 2 ''validations.array.validate(val_1)'',
        NewLine,
        Statement 2 ''if (val_1_exists && Array.isArray(val_1)) {'',
        Expression 3 ''const out_2 = out_1[index_0] = []'',
        Statement 3 ''for (let [index_1] of val_1.entries()) {'',
        NewLine,
        Expression 4 ''const val_2 = val_1[index_1]'',
        Expression 4 ''const val_2_exists = helpers.exists(val_2)'',
        Expression 4 ''validations.string.validate(val_2)'',
        Expression 4 ''await validations.unique.validate(val_2)'',
        Expression 4 ''out_2[index_1] = val_2'',
        Statement 3 ''}'',
        Statement 2 ''}'']
       = lines b1 @
         [NewLine,
          Statement (indentation b1)
            (ifGuardStatement (getVariableExistsName specCollaborators v) v),
          Expression (indentation b1 + 1)
            (outVariableDeclaration (''out_'' @ string_of_nat (outVariableCounter c1))
               (outVariable example_refs) (pointerToExpression specCollaborators example_field)),
          Statement (indentation b1 + 1)
            (if (\<exists>r\<in>set (all_rules (SchemaLiteral ''string'' [string_compile, unique_rule])).
                   async r)
             then asyncForLoopStatement v
                    (''index_'' @ string_of_nat (arrayIndexVariableCounter c1))
             else forLoopStatement v
                    (''index_'' @ string_of_nat (arrayIndexVariableCounter c1))),
          NewLine]
         @ body @ [Statement j ''}'', Statement k ''}'']
    \<and> hasAsyncChildren (SchemaLiteral ''string'' [string_compile, unique_rule])
        = (\<exists>r\<in>set (all_rules (SchemaLiteral ''string'' [string_compile, unique_rule])).
             async r)"
proof -
  have contract: "\<forall>fld n pp rv ov s c4 b7.
      compileNode specCollaborators fld n pp rv ov s = Inr (c4, b7) \<longrightarrow>
      (\<exists>body. lines b7 = lines (snd s) @ body)"
    using spec_compileNode_contract(1) by blast
  show ?thesis
    using compile_selects_loop_form
            [OF example_run_async [unfolded example_state_def] contract]
    by (simp add: example_state_def)
qed

text \<open>
  C3. For every array node with an element schema, everything \<^verbatim>\<open>compile\<close> writes for
  the elements (the accumulator declaration, the loop header, the lines of the element
  compilation and the closing brace of the loop) stands between the guard
  \<^verbatim>\<open>if (exists && Array.isArray(value)) {\<close> and its closing brace. So when the guard is
  evaluated on a value that is absent or not an array, none of those lines is reached,
  while the lines of the container-level rule chain, written before the guard, are
  reached exactly as they would be with no element block at all. The element
  compilation is assumed to append well-bracketed lines.
\<close>

theorem compile_guards_element_block:
  assumes run: "compile env field (SchemaArray rs (Some e)) refs (c, b) = Inr (c', b')"
  and bracketed: "\<forall>fld n pp rv ov s c4 b7.
      compileNode env fld n pp rv ov s = Inr (c4, b7) \<longrightarrow>
      (\<exists>body. lines b7 = lines (snd s) @ body \<and> well_bracketed body)"
  shows "\<exists>v c1 b1 decl loop body j k.
      literalCompile env (arrayLiteral field rs (Some e) refs) (c, b) = Inr (v, c1, b1)
    \<and> lines b' = lines b1
         @ [NewLine,
            Statement (indentation b1) (ifGuardStatement (getVariableExistsName env v) v)]
         @ ([Expression (indentation b1 + 1) decl, Statement (indentation b1 + 1) loop, NewLine]
            @ body @ [Statement j ''}''])
         @ [Statement k ''}'']
    \<and> (\<exists>c3 b6 b7.
          compileNode env
            \<lparr>field_name = ''index_'' @ string_of_nat (arrayIndexVariableCounter c1),
              field_type = IdentifierField\<rparr>
            e (parentPointer refs @ [field]) v
            (''out_'' @ string_of_nat (outVariableCounter c1)) (c3, b6) = Inr (c', b7)
        \<and> lines b7 = lines b6 @ body)
    \<and> (\<forall>holds value.
          holds (ifGuardStatement (getVariableExistsName env v) v) = arrayGuard value \<longrightarrow>
          (value = JUndefined \<or> value = JNull \<or> \<not> isArray value) \<longrightarrow>
          reached holds [] (lines b') =
            reached holds []
              (lines b1 @
                [NewLine,
                 Statement (indentation b1)
                   (ifGuardStatement (getVariableExistsName env v) v)])
            @ replicate (length body + 4) False
            @ [enclosing_runs (blocks_after holds [] (lines b1))])"
proof -
  from bracketed have contract: "\<forall>fld n pp rv ov s c4 b7.
      compileNode env fld n pp rv ov s = Inr (c4, b7) \<longrightarrow>
      (\<exists>body. lines b7 = lines (snd s) @ body \<and> well_bracketed body)" .
  from compile_Some_lines [where P = well_bracketed, OF run contract] show ?thesis
  proof (elim exE conjE, goal_cases)
    case (1 v c1 b1 b6 b7 body)
    note lit = 1(1) and elem = 1(2) and b6 = 1(3) and b7 = 1(5) and wb = 1(6) and b' = 1(8)
    let ?guard = "Statement (indentation b1) (ifGuardStatement (getVariableExistsName env v) v)"
    let ?decl = "outVariableDeclaration (''out_'' @ string_of_nat (outVariableCounter c1))
                   (outVariable refs) (pointerToExpression env field)"
    let ?loop = "if hasAsyncChildren e
                 then asyncForLoopStatement v
                        (''index_'' @ string_of_nat (arrayIndexVariableCounter c1))
                 else forLoopStatement v
                        (''index_'' @ string_of_nat (arrayIndexVariableCounter c1))"
    let ?inner = "[Expression (indentation b1 + 1) ?decl, Statement (indentation b1 + 1) ?loop,
                   NewLine] @ body @ [Statement (indentation b7 - 1) ''}'']"
    let ?close = "Statement (indentation b7 - 2) ''}''"
    have shape: "lines b' = lines b1 @ [NewLine, ?guard] @ ?inner @ [?close]"
      unfolding b' b7 b6 by simp
    have inner: "bracket_depth 0 ?inner = Some 0"
      by (rule element_block_bracketed [OF wb])
    have dead: "reached holds [] (lines b') =
            reached holds [] (lines b1 @ [NewLine, ?guard])
            @ replicate (length body + 4) False
            @ [enclosing_runs (blocks_after holds [] (lines b1))]"
      if guard: "holds (ifGuardStatement (getVariableExistsName env v) v) = arrayGuard x"
      and absent: "x = JUndefined \<or> x = JNull \<or> \<not> isArray x"
      for holds x
    proof -
      from guard absent
      have off: "\<not> holds (line_text ?guard)"
        by (auto simp: arrayGuard_def valueExists_def)
      let ?stack = "blocks_after holds [] (lines b1)"
      have block: "reached holds ?stack (?guard # ?inner @ [?close])
                     = enclosing_runs ?stack # replicate (length ?inner) False
                       @ [enclosing_runs ?stack]"
      proof -
        have opened: "opens_block ?guard" and kept: "\<not> closes_block ?guard"
          by (rule opens_ifGuard, rule closes_ifGuard)
        have closed: "closes_block ?close" and final: "\<not> opens_block ?close"
          by simp_all
        from guarded_lines_dead
               [where h = ?guard and holds = holds and inner = ?inner and c = ?close
                  and stack = ?stack, OF opened kept off inner closed final]
        show ?thesis by simp
      qed
      have before: "reached holds [] (lines b1 @ [NewLine, ?guard])
                      = reached holds [] (lines b1) @ [enclosing_runs ?stack, enclosing_runs ?stack]"
        by (simp add: reached_append Let_def del: opens_block.simps(1) closes_block.simps(1))
      have blank: "reached holds ?stack (NewLine # rest)
                     = enclosing_runs ?stack # reached holds ?stack rest" for rest
        by (simp add: Let_def)
      have "lines b' = lines b1 @ NewLine # (?guard # ?inner @ [?close])"
        unfolding shape by simp
      then have step: "reached holds [] (lines b') =
              reached holds [] (lines b1)
              @ reached holds ?stack (NewLine # (?guard # ?inner @ [?close]))"
        by (simp only: reached_append)
      have len: "length ?inner = length body + 4" by simp
      show ?thesis
        unfolding step blank block before len by (simp del: reached.simps)
    qed
    from lit shape elem b7 dead show ?case by blast
  qed
qed

theorem compile_guards_element_block_witness:
  "(\<exists>v c1 b1 decl loop body j k.
      literalCompile specCollaborators
        (arrayLiteral example_field [array_rule]
           (Some (SchemaLiteral ''string'' [string_compile])) example_refs)
        example_state = Inr (v, c1, b1)
    \<and> [Expression 2 ''const val_1 = val_0[index_0]'',
        Expression 2 ''const val_1_exists = helpers.exists(val_1)'',
        Expression 2 ''validations.array.validate(val_1)'',
        NewLine,
        Statement 2 ''if (val_1_exists && Array.isArray(val_1)) {'',
        Expression 3 ''const out_2 = out_1[index_0] = []'',
        Statement 3 ''for (let index_1 = 0; index_1 < val_1.length; index_1++) {'',
        NewLine,
        Expression 4 ''const val_2 = val_1[index_1]'',
        Expression 4 ''const val_2_exists = helpers.exists(val_2)'',
        Expression 4 ''validations.string.validate(val_2)'',
        Expression 4 ''out_2[index_1] = val_2'',
        Statement 3 ''}'',
        Statement 2 ''}'']
       = lines b1
         @ [NewLine,
            Statement (indentation b1)
              (ifGuardStatement (getVariableExistsName specCollaborators v) v)]
         @ ([Expression (indentation b1 + 1) decl, Statement (indentation b1 + 1) loop, NewLine]
            @ body @ [Statement j ''}''])
         @ [Statement k ''}'']
    \<and> (\<exists>c3 b6 b7.
          compileNode specCollaborators
            \<lparr>field_name = ''index_'' @ string_of_nat (arrayIndexVariableCounter c1),
              field_type = IdentifierField\<rparr>
            (SchemaLiteral ''string'' [string_compile])
            (parentPointer example_refs @ [example_field]) v
            (''out_'' @ string_of_nat (outVariableCounter c1)) (c3, b6)
            = Inr (\<lparr>arrayIndexVariableCounter = 2, outVariableCounter = 3\<rparr>, b7)
        \<and> lines b7 = lines b6 @ body)
    \<and> (\<forall>holds value.
          holds (ifGuardStatement (getVariableExistsName specCollaborators v) v)
            = arrayGuard value \<longrightarrow>
          (value = JUndefined \<or> value = JNull \<or> \<not> isArray value) \<longrightarrow>
          reached holds []
            [Expression 2 ''const val_1 = val_0[index_0]'',
             Expression 2 ''const val_1_exists = helpers.exists(val_1)'',
             Expression 2 ''validations.array.validate(val_1)'',
             NewLine,
             Statement 2 ''if (val_1_exists && Array.isArray(val_1)) {'',
             Expression 3 ''const out_2 = out_1[index_0] = []'',
             Statement 3 ''for (let index_1 = 0; index_1 < val_1.length; index_1++) {'',
             NewLine,
             Expression 4 ''const val_2 = val_1[index_1]'',
             Expression 4 ''const val_2_exists = helpers.exists(val_2)'',
             Expression 4 ''validations.string.validate(val_2)'',
             Expression 4 ''out_2[index_1] = val_2'',
             Statement 3 ''}'',
             Statement 2 ''}''] =
            reached holds []
              (lines b1 @
                [NewLine,
                 Statement (indentation b1)
                   (ifGuardStatement (getVariableExistsName specCollaborators v) v)])
            @ replicate (length body + 4) False
            @ [enclosing_runs (blocks_after holds [] (lines b1))]))
   \<and> reached (\<lambda>text. arrayGuard (JString ''not-an-array'')) []
        [Expression 2 ''const val_1 = val_0[index_0]'',
         Expression 2 ''const val_1_exists = helpers.exists(val_1)'',
         Expression 2 ''validations.array.validate(val_1)'',
         NewLine,
         Statement 2 ''if (val_1_exists && Array.isArray(val_1)) {'',
         Expression 3 ''const out_2 = out_1[index_0] = []'',
         Statement 3 ''for (let index_1 = 0; index_1 < val_1.length; index_1++) {'',
         NewLine,
         Expression 4 ''const val_2 = val_1[index_1]'',
         Expression 4 ''const val_2_exists = helpers.exists(val_2)'',
         Expression 4 ''validations.string.validate(val_2)'',
         Expression 4 ''out_2[index_1] = val_2'',
         Statement 3 ''}'',
         Statement 2 ''}'']
      = [True, True, True, True, True,
         False, False, False, False, False, False, False, False,
         True]"
proof
  have contract: "\<forall>fld n pp rv ov s c4 b7.
      compileNode specCollaborators fld n pp rv ov s = Inr (c4, b7) \<longrightarrow>
      (\<exists>body. lines b7 = lines (snd s) @ body \<and> well_bracketed body)"
    using spec_compileNode_contract(1) by blast
  show "\<exists>v c1 b1 decl loop body j k.
      literalCompile specCollaborators
        (arrayLiteral example_field [array_rule]
           (Some (SchemaLiteral ''string'' [string_compile])) example_refs)
        example_state = Inr (v, c1, b1)
    \<and> [Expression 2 ''const val_1 = val_0[index_0]'',
        Expression 2 ''const val_1_exists = helpers.exists(val_1)'',
        Expression 2 ''validations.array.validate(val_1)'',
        NewLine,
        Statement 2 ''if (val_1_exists && Array.isArray(val_1)) {'',
        Expression 3 ''const out_2 = out_1[index_0] = []'',
        Statement 3 ''for (let index_1 = 0; index_1 < val_1.length; index_1++) {'',
        NewLine,
        Expression 4 ''const val_2 = val_1[index_1]'',
        Expression 4 ''const val_2_exists = helpers.exists(val_2)'',
        Expression 4 ''validations.string.validate(val_2)'',
        Expression 4 ''out_2[index_1] = val_2'',
        Statement 3 ''}'',
        Statement 2 ''}'']
       = lines b1
         @ [NewLine,
            Statement (indentation b1)
              (ifGuardStatement (getVariableExistsName specCollaborators v) v)]
         @ ([Expression (indentation b1 + 1) decl, Statement (indentation b1 + 1) loop, NewLine]
            @ body @ [Statement j ''}''])
         @ [Statement k ''}'']
    \<and> (\<exists>c3 b6 b7.
          compileNode specCollaborators
            \<lparr>field_name = ''index_'' @ string_of_nat (arrayIndexVariableCounter c1),
              field_type = IdentifierField\<rparr>
            (SchemaLiteral ''string'' [string_compile])
            (parentPointer example_refs @ [example_field]) v
            (''out_'' @ string_of_nat (outVariableCounter c1)) (c3, b6)
            = Inr (\<lparr>arrayIndexVariableCounter = 2, outVariableCounter = 3\<rparr>, b7)
        \<and> lines b7 = lines b6 @ body)
    \<and> (\<forall>holds value.
          holds (ifGuardStatement (getVariableExistsName specCollaborators v) v)
            = arrayGuard value \<longrightarrow>
          (value = JUndefined \<or> value = JNull \<or> \<not> isArray value) \<longrightarrow>
          reached holds []
            [Expression 2 ''const val_1 = val_0[index_0]'',
             Expression 2 ''const val_1_exists = helpers.exists(val_1)'',
             Expression 2 ''validations.array.validate(val_1)'',
             NewLine,
             Statement 2 ''if (val_1_exists && Array.isArray(val_1)) {'',
             Expression 3 ''const out_2 = out_1[index_0] = []'',
             Statement 3 ''for (let index_1 = 0; index_1 < val_1.length; index_1++) {'',
             NewLine,
             Expression 4 ''const val_2 = val_1[index_1]'',
             Expression 4 ''const val_2_exists = helpers.exists(val_2)'',
             Expression 4 ''validations.string.validate(val_2)'',
             Expression 4 ''out_2[index_1] = val_2'',
             Statement 3 ''}'',
             Statement 2 ''}''] =
            reached holds []
              (lines b1 @
                [NewLine,
                 Statement (indentation b1)
                   (ifGuardStatement (getVariableExistsName specCollaborators v) v)])
            @ replicate (length body + 4) False
            @ [enclosing_runs (blocks_after holds [] (lines b1))])"
    using compile_guards_element_block [OF example_run [unfolded example_state_def] contract]
    by (simp add: example_state_def)
  show "reached (\<lambda>text. arrayGuard (JString ''not-an-array'')) []
        [Expression 2 ''const val_1 = val_0[index_0]'',
         Expression 2 ''const val_1_exists = helpers.exists(val_1)'',
         Expression 2 ''validations.array.validate(val_1)'',
         NewLine,
         Statement 2 ''if (val_1_exists && Array.isArray(val_1)) {'',
         Expression 3 ''const out_2 = out_1[index_0] = []'',
         Statement 3 ''for (let index_1 = 0; index_1 < val_1.length; index_1++) {'',
         NewLine,
         Expression 4 ''const val_2 = val_1[index_1]'',
         Expression 4 ''const val_2_exists = helpers.exists(val_2)'',
         Expression 4 ''validations.string.validate(val_2)'',
         Expression 4 ''out_2[index_1] = val_2'',
         Statement 3 ''}'',
         Statement 2 ''}'']
      = [True, True, True, True, True,
         False, False, False, False, False, False, False, False,
         True]"
    by (simp add: Let_def arrayGuard_def)
qed

text \<open>
  C6. For every array node with an element schema, \<^verbatim>\<open>compile\<close> draws the name of the
  index variable from \<^verbatim>\<open>arrayIndexVariableCounter\<close> and the name of the output
  accumulator from \<^verbatim>\<open>outVariableCounter\<close>, and hands the element compilation a
  compiler whose two counters are one higher, so the next names drawn differ (the
  rendering of a counter is injective). Right after the guard and before the loop header
  it writes \<^verbatim>\<open>const out_k = <parent output>[<reference expression>] = []\<close>, which
  starts the accumulator empty and links it into the parent output; the loop header
  that follows declares the index variable, and the element schema is then dispatched
  with the index variable as its field, the value variable as its reference and the
  accumulator as its output. The element compilation is assumed to append to the buffer.
\<close>

theorem compile_declares_fresh_variables:
  assumes run: "compile env field (SchemaArray rs (Some e)) refs (c, b) = Inr (c', b')"
  and appends: "\<forall>fld n pp rv ov s c4 b7.
      compileNode env fld n pp rv ov s = Inr (c4, b7) \<longrightarrow>
      (\<exists>body. lines b7 = lines (snd s) @ body)"
  shows "\<exists>v c1 b1 b6 b7 body j k.
      literalCompile env (arrayLiteral field rs (Some e) refs) (c, b) = Inr (v, c1, b1)
    \<and> compileNode env
        \<lparr>field_name = ''index_'' @ string_of_nat (arrayIndexVariableCounter c1),
          field_type = IdentifierField\<rparr>
        e (parentPointer refs @ [field]) v (''out_'' @ string_of_nat (outVariableCounter c1))
        (c1\<lparr>arrayIndexVariableCounter := arrayIndexVariableCounter c1 + 1,
            outVariableCounter := outVariableCounter c1 + 1\<rparr>, b6) = Inr (c', b7)
    \<and> lines b6 = lines b1 @
         [NewLine,
          Statement (indentation b1) (ifGuardStatement (getVariableExistsName env v) v),
          Expression (indentation b1 + 1)
            (''const '' @ (''out_'' @ string_of_nat (outVariableCounter c1)) @ '' = ''
               @ outVariable refs @ ''['' @ pointerToExpression env field @ ''] = []''),
          Statement (indentation b1 + 1)
            (if hasAsyncChildren e
             then asyncForLoopStatement v
                    (''index_'' @ string_of_nat (arrayIndexVariableCounter c1))
             else forLoopStatement v
                    (''index_'' @ string_of_nat (arrayIndexVariableCounter c1))),
          NewLine]
    \<and> lines b' = lines b6 @ body @ [Statement j ''}'', Statement k ''}'']
    \<and> (\<forall>n m. (''index_'' @ string_of_nat n = ''index_'' @ string_of_nat m) = (n = m))
    \<and> (\<forall>n m. (''out_'' @ string_of_nat n = ''out_'' @ string_of_nat m) = (n = m))"
proof -
  from appends have contract: "\<forall>fld n pp rv ov s c4 b7.
      compileNode env fld n pp rv ov s = Inr (c4, b7) \<longrightarrow>
      (\<exists>body. lines b7 = lines (snd s) @ body \<and> True)" by simp
  have fresh: "\<forall>n m. (''index_'' @ string_of_nat n = ''index_'' @ string_of_nat m) = (n = m)"
    "\<forall>n m. (''out_'' @ string_of_nat n = ''out_'' @ string_of_nat m) = (n = m)"
    by (simp_all add: string_of_nat_eq_iff)
  from compile_Some_lines [where P = "\<lambda>body. True", OF run contract] show ?thesis
  proof (elim exE conjE, goal_cases)
    case (1 v c1 b1 b6 b7 body)
    note lit = 1(1) and elem = 1(2) and b6 = 1(3) and b7 = 1(5) and b' = 1(8)
    have decl: "lines b6 = lines b1 @
         [NewLine,
          Statement (indentation b1) (ifGuardStatement (getVariableExistsName env v) v),
          Expression (indentation b1 + 1)
            (''const '' @ (''out_'' @ string_of_nat (outVariableCounter c1)) @ '' = ''
               @ outVariable refs @ ''['' @ pointerToExpression env field @ ''] = []''),
          Statement (indentation b1 + 1)
            (if hasAsyncChildren e
             then asyncForLoopStatement v
                    (''index_'' @ string_of_nat (arrayIndexVariableCounter c1))
             else forLoopStatement v
                    (''index_'' @ string_of_nat (arrayIndexVariableCounter c1))),
          NewLine]"
      unfolding b6 by (simp add: outVariableDeclaration_def)
    have closing: "lines b' = lines b6 @ body
        @ [Statement (indentation b7 - 1) ''}'', Statement (indentation b7 - 2) ''}'']"
      unfolding b' b7 by simp
    from lit elem decl closing fresh show ?case by blast
  qed
qed

theorem compile_declares_fresh_variables_witness:
  "\<exists>v c1 b1 b6 b7 body j k.
      literalCompile specCollaborators
        (arrayLiteral example_field [array_rule]
           (Some (SchemaLiteral ''string'' [string_compile])) example_refs)
        example_state = Inr (v, c1, b1)
    \<and> compileNode specCollaborators
        \<lparr>field_name = ''index_'' @ string_of_nat (arrayIndexVariableCounter c1),
          field_type = IdentifierField\<rparr>
        (SchemaLiteral ''string'' [string_compile])
        (parentPointer example_refs @ [example_field]) v
        (''out_'' @ string_of_nat (outVariableCounter c1))
        (c1\<lparr>arrayIndexVariableCounter := arrayIndexVariableCounter c1 + 1,
            outVariableCounter := outVariableCounter c1 + 1\<rparr>, b6)
        = Inr (\<lparr>arrayIndexVariableCounter = 2, outVariableCounter = 3\<rparr>, b7)
    \<and> lines b6 = lines b1 @
         [NewLine,
          Statement (indentation b1)
            (ifGuardStatement (getVariableExistsName specCollaborators v) v),
          Expression (indentation b1 + 1)
            (''const '' @ (''out_'' @ string_of_nat (outVariableCounter c1)) @ '' = ''
               @ outVariable example_refs @ ''[''
               @ pointerToExpression specCollaborators example_field @ ''] = []''),
          Statement (indentation b1 + 1)
            (if hasAsyncChildren (SchemaLiteral ''string'' [string_compile])
             then asyncForLoopStatement v
                    (''index_'' @ string_of_nat (arrayIndexVariableCounter c1))
             else forLoopStatement v
                    (''index_'' @ string_of_nat (arrayIndexVariableCounter c1))),
          NewLine]
    \<and> [Expression 2 ''const val_1 = val_0[index_0]'',
        Expression 2 ''const val_1_exists = helpers.exists(val_1)'',
        Expression 2 ''validations.array.validate(val_1)'',
        NewLine,
        Statement 2 ''if (val_1_exists && Array.isArray(val_1)) {'',
        Expression 3 ''const out_2 = out_1[index_0] = []'',
        Statement 3 ''for (let index_1 = 0; index_1 < val_1.length; index_1++) {'',
        NewLine,
        Expression 4 ''const val_2 = val_1[index_1]'',
        Expression 4 ''const val_2_exists = helpers.exists(val_2)'',
        Expression 4 ''validations.string.validate(val_2)'',
        Expression 4 ''out_2[index_1] = val_2'',
        Statement 3 ''}'',
        Statement 2 ''}'']
       = lines b6 @ body @ [Statement j ''}'', Statement k ''}'']
    \<and> (\<forall>n m. (''index_'' @ string_of_nat n = ''index_'' @ string_of_nat m) = (n = m))
    \<and> (\<forall>n m. (''out_'' @ string_of_nat n = ''out_'' @ string_of_nat m) = (n = m))"
proof -
  have contract: "\<forall>fld n pp rv ov s c4 b7.
      compileNode specCollaborators fld n pp rv ov s = Inr (c4, b7) \<longrightarrow>
      (\<exists>body. lines b7 = lines (snd s) @ body)"
    using spec_compileNode_contract(1) by blast
  show ?thesis
    using compile_declares_fresh_variables
            [OF example_run [unfolded example_state_def] contract]
    by (simp add: example_state_def)
qed

text \<open>
  C8. For every array node, if the literal step and the element compilation leave the
  indentation of the buffer as they found it, so does \<^verbatim>\<open>compile\<close>: the two indents
  issued when opening the guard and the loop are undone by the two dedents issued when
  closing them. Those dedents never fail: when \<^verbatim>\<open>compile\<close> fails, the error is one
  the literal step or the element compilation raised.
\<close>

theorem compile_preserves_indentation:
  assumes lit: "\<forall>literal s v c1 b1.
      literalCompile env literal s = Inr (v, c1, b1) \<longrightarrow>
      indentation b1 = indentation (snd s)"
  and elem: "\<forall>fld n pp rv ov s c4 b7.
      compileNode env fld n pp rv ov s = Inr (c4, b7) \<longrightarrow>
      (indentation b7 = indentation (snd s))"
  shows "(\<forall>c' b'. compile env field (SchemaArray rs each) refs (c, b) = Inr (c', b') \<longrightarrow>
            indentation b' = indentation b)
       \<and> (\<forall>err. compile env field (SchemaArray rs each) refs (c, b) = Inl err \<longrightarrow>
            literalCompile env (arrayLiteral field rs each refs) (c, b) = Inl err
          \<or> (\<exists>e fld pp rv ov s. each = Some e \<and> compileNode env fld e pp rv ov s = Inl err))"
proof (cases each)
  case None
  show ?thesis
  proof (cases "rs = []")
    case True
    with None show ?thesis by simp
  next
    case False
    have returned: "indentation b' = indentation b"
      if "compile env field (SchemaArray rs None) refs (c, b) = Inr (c', b')" for c' b'
    proof -
      from that False obtain v where
        "literalCompile env (arrayLiteral field rs None refs) (c, b) = Inr (v, c', b')"
        by (auto simp: compile_None_eq split: sum.splits prod.splits)
      with lit show ?thesis by fastforce
    qed
    have failed: "literalCompile env (arrayLiteral field rs None refs) (c, b) = Inl err"
      if "compile env field (SchemaArray rs None) refs (c, b) = Inl err" for err
      using that False by (auto simp: compile_None_eq split: sum.splits prod.splits)
    from returned failed None show ?thesis by blast
  qed
next
  case (Some e)
  have returned: "indentation b' = indentation b"
    if ok: "compile env field (SchemaArray rs (Some e)) refs (c, b) = Inr (c', b')" for c' b'
  proof -
    from ok [unfolded compile_Some_Inr] obtain v c1 b1 fld out c3 b6 b7 where
      step: "literalCompile env (arrayLiteral field rs (Some e) refs) (c, b) = Inr (v, c1, b1)"
      and call: "compileNode env fld e (parentPointer refs @ [field]) v out (c3, b6)
                   = Inr (c', b7)"
      and entry: "indentation b6 = indentation b1 + 2"
      and exit: "indentation b' = indentation b7 - 2"
      by fastforce
    from lit step have "indentation b1 = indentation b" by fastforce
    moreover from elem call have "indentation b7 = indentation b6" by fastforce
    ultimately show ?thesis using entry exit by simp
  qed
  have failed: "literalCompile env (arrayLiteral field rs (Some e) refs) (c, b) = Inl err
      \<or> (\<exists>fld pp rv ov s. compileNode env fld e pp rv ov s = Inl err)"
    if bad: "compile env field (SchemaArray rs (Some e)) refs (c, b) = Inl err" for err
  proof -
    from compile_Some_Inl [OF bad] show ?thesis
    proof (elim disjE exE conjE, goal_cases)
      case 1
      then show ?case by simp
    next
      case (2 v c1 b1 fld out c3 b6)
      then show ?case by blast
    next
      case (3 v c1 b1 fld out c3 b6 c4 b7)
      from elem 3(3) have "indentation b7 = indentation b6" by fastforce
      with 3(2) 3(4) show ?case by simp
    qed
  qed
  from returned failed Some show ?thesis by blast
qed

theorem compile_preserves_indentation_witness:
  "\<exists>c' b'. compile specCollaborators example_field
       (SchemaArray [array_rule] (Some (SchemaLiteral ''string'' [string_compile])))
       example_refs (example_compiler, example_buffer) = Inr (c', b')
     \<and> indentation b' = indentation example_buffer"
proof -
  have lit: "\<forall>literal s v c1 b1.
      literalCompile specCollaborators literal s = Inr (v, c1, b1) \<longrightarrow>
      indentation b1 = indentation (snd s)"
    using spec_literalCompile_contract by blast
  have elem: "\<forall>fld n pp rv ov s c4 b7.
      compileNode specCollaborators fld n pp rv ov s = Inr (c4, b7) \<longrightarrow>
      (indentation b7 = indentation (snd s))"
    using spec_compileNode_contract(2) by blast
  from compile_preserves_indentation
         [OF lit elem, where field = example_field and rs = "[array_rule]"
            and each = "Some (SchemaLiteral ''string'' [string_compile])"
            and refs = example_refs and c = example_compiler and b = example_buffer]
  have "\<forall>c' b'. compile specCollaborators example_field
       (SchemaArray [array_rule] (Some (SchemaLiteral ''string'' [string_compile])))
       example_refs (example_compiler, example_buffer) = Inr (c', b') \<longrightarrow>
       indentation b' = indentation example_buffer"
    by (rule conjunct1)
  with example_run [unfolded example_state_def] show ?thesis by blast
qed

text \<open>
  C2. The claim as stated fails on the array node that has neither rules nor an element
  schema: \<^verbatim>\<open>compile\<close> returns before the literal step, so the buffer holds no
  container-level assignment, although the node has no element schema and the literal
  step configured for it would have written one.
\<close>

theorem compile_container_assignment_counterexample:
  "compile specCollaborators example_field (SchemaArray [] None) example_refs
     (\<lparr>arrayIndexVariableCounter = 1, outVariableCounter = 2\<rparr>,
      \<lparr>lines = [], indentation = 2, allocated = 1\<rparr>)
   = Inr (\<lparr>arrayIndexVariableCounter = 1, outVariableCounter = 2\<rparr>,
          \<lparr>lines = [], indentation = 2, allocated = 1\<rparr>)
   \<and> arrayLiteral example_field [] None example_refs
   = \<lparr>lc_field = example_field, lc_node = SchemaLiteral ''array'' [],
       lc_references = example_refs, disableOutVariable = False,
       forceValueDeclaration = True\<rparr>
   \<and> literalCompile specCollaborators (arrayLiteral example_field [] None example_refs)
     (\<lparr>arrayIndexVariableCounter = 1, outVariableCounter = 2\<rparr>,
      \<lparr>lines = [], indentation = 2, allocated = 1\<rparr>)
   = Inr (''val_1'', \<lparr>arrayIndexVariableCounter = 1, outVariableCounter = 2\<rparr>,
          \<lparr>lines = [Expression 2 ''const val_1 = val_0[index_0]'',
                    Expression 2 ''const val_1_exists = helpers.exists(val_1)'',
                    Expression 2 ''out_1[index_0] = val_1''],
           indentation = 2, allocated = 2\<rparr>)"
  by (simp add: example_defs spec_defs text_defs buffer_defs Let_def string_of_nat.simps
        digit_char_def)

text \<open>
  C2, amended. For every array node that has at least one rule or an element schema,
  \<^verbatim>\<open>compile\<close> runs the literal step with \<^verbatim>\<open>disableOutVariable\<close> set to whether
  the node has an element schema. With the literal compiler of the specification, that
  step binds the value variable to the field's value and writes the same lines whatever
  the flag, followed, exactly when the flag is off, by the assignment of the value
  variable itself to the field's place in the parent output. So a node without an
  element schema compiles to those lines ending with the assignment, which passes the
  array through unmodified, and for a node with an element schema the lines of the
  literal step are followed at once by the element guard, with no assignment. The element
  compilation is assumed to append to the buffer.
\<close>

theorem compile_container_assignment:
  assumes nonempty: "rs \<noteq> [] \<or> each \<noteq> None"
  and spec: "literalCompile env
               = LiteralCompiler_compile (pointerToExpression env) (getVariableExistsName env)"
  and appends: "\<forall>fld n pp rv ov s c4 b7.
      compileNode env fld n pp rv ov s = Inr (c4, b7) \<longrightarrow>
      (\<exists>body. lines b7 = lines (snd s) @ body)"
  shows "\<exists>v common k.
      disableOutVariable (arrayLiteral field rs each refs) = (each \<noteq> None)
    \<and> (\<forall>flag.
          literalCompile env ((arrayLiteral field rs each refs)\<lparr>disableOutVariable := flag\<rparr>)
            (c, b) =
          Inr (v, c,
               b\<lparr>lines := lines b @
                    (Expression (indentation b)
                       (valueDeclaration v (referenceVariable refs)
                          (pointerToExpression env field)) # common)
                    @ (if flag then []
                       else [Expression (indentation b)
                               (outAssignment (outVariable refs)
                                  (pointerToExpression env field) v)]),
                 allocated := k\<rparr>))
    \<and> (each = None \<longrightarrow>
          compile env field (SchemaArray rs each) refs (c, b) =
          Inr (c,
               b\<lparr>lines := lines b @
                    (Expression (indentation b)
                       (valueDeclaration v (referenceVariable refs)
                          (pointerToExpression env field)) # common)
                    @ [Expression (indentation b)
                         (outAssignment (outVariable refs) (pointerToExpression env field) v)],
                 allocated := k\<rparr>))
    \<and> (\<forall>e c' b'. each = Some e \<longrightarrow>
          compile env field (SchemaArray rs each) refs (c, b) = Inr (c', b') \<longrightarrow>
          (\<exists>rest. lines b' = lines b @
                    (Expression (indentation b)
                       (valueDeclaration v (referenceVariable refs)
                          (pointerToExpression env field)) # common)
                    @ [NewLine,
                       Statement (indentation b)
                         (ifGuardStatement (getVariableExistsName env v) v)]
                    @ rest))"
proof -
  let ?L = "arrayLiteral field rs each refs"
  let ?v = "''val_'' @ string_of_nat (allocated b)"
  let ?decl = "Expression (indentation b)
                 (valueDeclaration ?v (referenceVariable refs) (pointerToExpression env field))"
  let ?assign = "Expression (indentation b)
                   (outAssignment (outVariable refs) (pointerToExpression env field) ?v)"
  from LiteralCompiler_compile_arrayLiteral
         [of "pointerToExpression env" "getVariableExistsName env" field rs each refs c b]
  obtain common where step: "\<forall>flag.
      literalCompile env (?L\<lparr>disableOutVariable := flag\<rparr>) (c, b) =
        Inr (?v, c, b\<lparr>lines := lines b @ (?decl # common) @ (if flag then [] else [?assign]),
                       allocated := allocated b + 1\<rparr>)"
    unfolding spec by blast
  have flag: "disableOutVariable ?L = (each \<noteq> None)" by (simp add: arrayLiteral_def)
  have same: "?L\<lparr>disableOutVariable := (each \<noteq> None)\<rparr> = ?L" by (simp add: arrayLiteral_def)
  from step have own: "literalCompile env ?L (c, b) =
        Inr (?v, c, b\<lparr>lines := lines b @ (?decl # common)
                              @ (if each \<noteq> None then [] else [?assign]),
                       allocated := allocated b + 1\<rparr>)"
    using same by metis
  have none: "compile env field (SchemaArray rs each) refs (c, b) =
        Inr (c, b\<lparr>lines := lines b @ (?decl # common) @ [?assign],
                   allocated := allocated b + 1\<rparr>)" if "each = None"
  proof -
    from that nonempty have "rs \<noteq> []" by simp
    with that own show ?thesis by (simp add: compile_None_eq)
  qed
  have some: "\<exists>rest. lines b' = lines b @ (?decl # common)
                 @ [NewLine,
                    Statement (indentation b) (ifGuardStatement (getVariableExistsName env ?v) ?v)]
                 @ rest"
    if e: "each = Some e"
    and ok: "compile env field (SchemaArray rs each) refs (c, b) = Inr (c', b')" for e c' b'
  proof -
    from appends have contract: "\<forall>fld n pp rv ov s c4 b7.
        compileNode env fld n pp rv ov s = Inr (c4, b7) \<longrightarrow>
        (\<exists>body. lines b7 = lines (snd s) @ body \<and> True)" by simp
    from compile_Some_lines [where P = "\<lambda>body. True", OF ok [unfolded e] contract]
    show ?thesis
    proof (elim exE conjE, goal_cases)
      case (1 v c1 b1 b6 b7 body)
      from 1(1) own e have v: "v = ?v"
        and b1: "b1 = b\<lparr>lines := lines b @ (?decl # common), allocated := allocated b + 1\<rparr>"
        by simp_all
      have "lines b' = lines b @ (?decl # common)
                 @ [NewLine,
                    Statement (indentation b) (ifGuardStatement (getVariableExistsName env ?v) ?v)]
                 @ ([Expression (indentation b1 + 1)
                       (outVariableDeclaration (''out_'' @ string_of_nat (outVariableCounter c1))
                          (outVariable refs) (pointerToExpression env field)),
                     Statement (indentation b1 + 1)
                       (if hasAsyncChildren e
                        then asyncForLoopStatement v
                               (''index_'' @ string_of_nat (arrayIndexVariableCounter c1))
                        else forLoopStatement v
                               (''index_'' @ string_of_nat (arrayIndexVariableCounter c1))),
                     NewLine] @ body
                    @ [Statement (indentation b7 - 1) ''}'', Statement (indentation b7 - 2) ''}''])"
        unfolding 1(8) 1(5) 1(3) by (simp add: v b1)
      then show ?case by blast
    qed
  qed
  from flag step none some show ?thesis by blast
qed

theorem compile_container_assignment_witness:
  "(\<exists>v common k.
      disableOutVariable (arrayLiteral example_field [array_rule] None example_refs)
        = ((None :: schema option) \<noteq> None)
    \<and> (\<forall>flag.
          literalCompile specCollaborators
            ((arrayLiteral example_field [array_rule] None example_refs)
               \<lparr>disableOutVariable := flag\<rparr>)
            (example_compiler, example_buffer) =
          Inr (v, example_compiler,
               example_buffer\<lparr>lines := lines example_buffer @
                    (Expression (indentation example_buffer)
                       (valueDeclaration v (referenceVariable example_refs)
                          (pointerToExpression specCollaborators example_field)) # common)
                    @ (if flag then []
                       else [Expression (indentation example_buffer)
                               (outAssignment (outVariable example_refs)
                                  (pointerToExpression specCollaborators example_field) v)]),
                 allocated := k\<rparr>))
    \<and> ((None :: schema option) = None \<longrightarrow>
          compile specCollaborators example_field (SchemaArray [array_rule] None) example_refs
            (example_compiler, example_buffer) =
          Inr (example_compiler,
               example_buffer\<lparr>lines := lines example_buffer @
                    (Expression (indentation example_buffer)
                       (valueDeclaration v (referenceVariable example_refs)
                          (pointerToExpression specCollaborators example_field)) # common)
                    @ [Expression (indentation example_buffer)
                         (outAssignment (outVariable example_refs)
                            (pointerToExpression specCollaborators example_field) v)],
                 allocated := k\<rparr>))
    \<and> (\<forall>e c' b'. None = Some e \<longrightarrow>
          compile specCollaborators example_field (SchemaArray [array_rule] None) example_refs
            (example_compiler, example_buffer) = Inr (c', b') \<longrightarrow>
          (\<exists>rest. lines b' = lines example_buffer @
                    (Expression (indentation example_buffer)
                       (valueDeclaration v (referenceVariable example_refs)
                          (pointerToExpression specCollaborators example_field)) # common)
                    @ [NewLine,
                       Statement (indentation example_buffer)
                         (ifGuardStatement (getVariableExistsName specCollaborators v) v)]
                    @ rest)))
   \<and> compile specCollaborators example_field (SchemaArray [array_rule] None) example_refs
       (example_compiler, example_buffer)
     = Inr (\<lparr>arrayIndexVariableCounter = 1, outVariableCounter = 2\<rparr>,
            \<lparr>lines = [Expression 2 ''const val_1 = val_0[index_0]'',
                      Expression 2 ''const val_1_exists = helpers.exists(val_1)'',
                      Expression 2 ''validations.array.validate(val_1)'',
                      Expression 2 ''out_1[index_0] = val_1''],
             indentation = 2, allocated = 2\<rparr>)"
proof (rule conjI)
  have nonempty: "[array_rule] \<noteq> [] \<or> (None :: schema option) \<noteq> None" by simp
  have spec: "literalCompile specCollaborators
               = LiteralCompiler_compile (pointerToExpression specCollaborators)
                   (getVariableExistsName specCollaborators)"
    by (simp add: specCollaborators_def)
  have contract: "\<forall>fld n pp rv ov s c4 b7.
      compileNode specCollaborators fld n pp rv ov s = Inr (c4, b7) \<longrightarrow>
      (\<exists>body. lines b7 = lines (snd s) @ body)"
    using spec_compileNode_contract(1) by blast
  show "\<exists>v common k.
      disableOutVariable (arrayLiteral example_field [array_rule] None example_refs)
        = ((None :: schema option) \<noteq> None)
    \<and> (\<forall>flag.
          literalCompile specCollaborators
            ((arrayLiteral example_field [array_rule] None example_refs)
               \<lparr>disableOutVariable := flag\<rparr>)
            (example_compiler, example_buffer) =
          Inr (v, example_compiler,
               example_buffer\<lparr>lines := lines example_buffer @
                    (Expression (indentation example_buffer)
                       (valueDeclaration v (referenceVariable example_refs)
                          (pointerToExpression specCollaborators example_field)) # common)
                    @ (if flag then []
                       else [Expression (indentation example_buffer)
                               (outAssignment (outVariable example_refs)
                                  (pointerToExpression specCollaborators example_field) v)]),
                 allocated := k\<rparr>))
    \<and> ((None :: schema option) = None \<longrightarrow>
          compile specCollaborators example_field (SchemaArray [array_rule] None) example_refs
            (example_compiler, example_buffer) =
          Inr (example_compiler,
               example_buffer\<lparr>lines := lines example_buffer @
                    (Expression (indentation example_buffer)
                       (valueDeclaration v (referenceVariable example_refs)
                          (pointerToExpression specCollaborators example_field)) # common)
                    @ [Expression (indentation example_buffer)
                         (outAssignment (outVariable example_refs)
                            (pointerToExpression specCollaborators example_field) v)],
                 allocated := k\<rparr>))
    \<and> (\<forall>e c' b'. None = Some e \<longrightarrow>
          compile specCollaborators example_field (SchemaArray [array_rule] None) example_refs
            (example_compiler, example_buffer) = Inr (c', b') \<longrightarrow>
          (\<exists>rest. lines b' = lines example_buffer @
                    (Expression (indentation example_buffer)
                       (valueDeclaration v (referenceVariable example_refs)
                          (pointerToExpression specCollaborators example_field)) # common)
                    @ [NewLine,
                       Statement (indentation example_buffer)
                         (ifGuardStatement (getVariableExistsName specCollaborators v) v)]
                    @ rest))"
    using compile_container_assignment
            [OF nonempty spec contract, where field = example_field and refs = example_refs
               and c = example_compiler and b = example_buffer]
    by blast
  show "compile specCollaborators example_field (SchemaArray [array_rule] None) example_refs
       (example_compiler, example_buffer)
     = Inr (\<lparr>arrayIndexVariableCounter = 1, outVariableCounter = 2\<rparr>,
            \<lparr>lines = [Expression 2 ''const val_1 = val_0[index_0]'',
                      Expression 2 ''const val_1_exists = helpers.exists(val_1)'',
                      Expression 2 ''validations.array.validate(val_1)'',
                      Expression 2 ''out_1[index_0] = val_1''],
             indentation = 2, allocated = 2\<rparr>)"
    by (simp add: example_defs spec_defs text_defs buffer_defs Let_def string_of_nat.simps
          digit_char_def)
qed

end
